theory Spec2Isabelle
  imports Main
begin

section \<open>The arq command-line supervisor (src/arq/cli.py)\<close>

text \<open>
  The development embeds the two functions of \<^verbatim>\<open>src/arq/cli.py\<close>: the click command
  \<^verbatim>\<open>cli\<close> (mode selection and process fan-out) and the coroutine \<^verbatim>\<open>watch_reload\<close>
  (the watch-reload controller with its nested stop hook \<^verbatim>\<open>worker_on_stop\<close>).
  Everything the two functions do to their collaborators (the worker library, the event
  loop, the file watcher, the process launcher) is recorded as a list of calls, in program
  order, so that statements about what is constructed, closed, scheduled or spawned are
  statements about that list.
\<close>

subsection \<open>Signals\<close>

text \<open>
  The members of Python's \<^verbatim>\<open>signal.Signals\<close> that POSIX numbers 1 to 15.
  \<^verbatim>\<open>Signals.SIGUSR1\<close> is the one the source compares with.
\<close>

datatype Signals =
    SIGHUP | SIGINT | SIGQUIT | SIGILL | SIGTRAP | SIGABRT | SIGBUS | SIGFPE
  | SIGKILL | SIGUSR1 | SIGSEGV | SIGUSR2 | SIGPIPE | SIGALRM | SIGTERM

subsection \<open>Worker objects, collaborator calls and the controller's state\<close>

text \<open>
  A \<^verbatim>\<open>Worker\<close> object is known by its identity only: the number of worker objects
  that \<^verbatim>\<open>create_worker\<close> returned before it in the same process.
\<close>

type_synonym handle = nat

text \<open>A batch of file changes, as the watcher yields it: the changed paths.\<close>

type_synonym change_batch = "string list"

text \<open>
  The calls that \<^verbatim>\<open>watch_reload\<close> makes, one constructor per statement of the source:
  \<^item> \<open>CreateWorker c h\<close>: \<^verbatim>\<open>create_worker(worker_settings)\<close>, which returns worker \<open>h\<close>;
  \<^item> \<open>SetOnStop h\<close>: \<^verbatim>\<open>worker.on_stop = worker_on_stop\<close>;
  \<^item> \<open>CreateTask h\<close>: \<^verbatim>\<open>loop.create_task(worker.async_run())\<close>;
  \<^item> \<open>AwatchNext b\<close>: the \<^verbatim>\<open>async for\<close> takes the next batch \<open>b\<close> from \<^verbatim>\<open>awatch\<close>;
  \<^item> \<open>Print\<close>: \<^verbatim>\<open>print('\nfiles changed, reloading arq worker...')\<close>;
  \<^item> \<open>HandleSig h s\<close>: \<^verbatim>\<open>worker.handle_sig(s)\<close>;
  \<^item> \<open>Close h\<close>: \<^verbatim>\<open>await worker.close()\<close>.
\<close>

datatype 'c call =
    CreateWorker 'c handle
  | SetOnStop handle
  | CreateTask handle
  | AwatchNext change_batch
  | Print
  | HandleSig handle Signals
  | Close handle

text \<open>
  The exceptions: the \<^verbatim>\<open>ImportError\<close> that \<^verbatim>\<open>watch_reload\<close> raises, with its message; the
  failure of \<^verbatim>\<open>import_string\<close> on a locator; the exception of a collaborator call of the
  controller; and the exceptions of the standard library calls of \<^verbatim>\<open>cli\<close>
  (\<^verbatim>\<open>ValueError\<close> from \<^verbatim>\<open>dictConfig\<close>, \<^verbatim>\<open>TypeError\<close> and \<^verbatim>\<open>OSError\<close> from
  \<^verbatim>\<open>Process.start\<close>).
\<close>

datatype 'c error =
    ImportError string
  | ImportStringFailed string
  | CallRaised "'c call"
  | ValueError
  | TypeError
  | OSError

text \<open>
  How a call ends: it returns, \<^verbatim>\<open>exit(n)\<close> raises \<^verbatim>\<open>SystemExit(n)\<close>, another
  exception leaves it, or it never returns.
\<close>

datatype 'c outcome = Returned | SystemExit int | Uncaught "'c error" | NeverReturns

text \<open>
  The state of one process running \<^verbatim>\<open>watch_reload\<close>: the \<^verbatim>\<open>asyncio.Event\<close>
  \<^verbatim>\<open>stop_event\<close>, the calls made so far (oldest first), and the workers whose
  \<^verbatim>\<open>on_stop\<close> attribute holds \<^verbatim>\<open>worker_on_stop\<close>.
\<close>

record 'c controller =
  stop_event :: bool
  trace :: "'c call list"
  on_stop :: "handle list"

definition initial :: "'c controller" where
  "initial = \<lparr>stop_event = False, trace = [], on_stop = []\<rparr>"

subsection \<open>The stop hook (cli.py, lines 78 to 80)\<close>

text \<open>
  \<^verbatim>\<open>
  def worker_on_stop(s: Signals) -> None:
      if s != Signals.SIGUSR1:
          stop_event.set()
  \<close>
  \<^verbatim>\<open>asyncio.Event.set\<close> makes the flag true, whatever it was.
\<close>

definition worker_on_stop :: "Signals \<Rightarrow> 'c controller \<Rightarrow> 'c controller" where
  "worker_on_stop s st = (if s \<noteq> SIGUSR1 then st\<lparr>stop_event := True\<rparr> else st)"

subsection \<open>The collaborators of the controller\<close>

text \<open>
  Modelled from the spec: the worker library (\<^verbatim>\<open>arq/worker.py\<close>), the event loop and the
  watcher are not part of \<^verbatim>\<open>cli.py\<close>. Each call on them is appended to the trace, and it
  either returns or raises ("failure to close the old handle or construct/run the new one is
  fatal and propagates"). Which calls raise is the environment's choice: \<open>F\<close> lists the
  positions, counted from 0 in the order the controller makes its calls, of those that raise.
\<close>

definition invoke :: "nat list \<Rightarrow> 'c call \<Rightarrow> 'c controller \<Rightarrow> 'c outcome \<times> 'c controller" where
  "invoke F c st =
     (let st' = st\<lparr>trace := trace st @ [c]\<rparr>
      in if length (trace st) \<in> set F then (Uncaught (CallRaised c), st') else (Returned, st'))"

text \<open>
  Modelled from the spec: a worker that receives a signal passes it to its stop hook, when it
  has one ("any other termination signal received by the worker must set the StopEvent";
  for the reload signal the hook is a "no-op pass-through used by the worker's own stop hook").
\<close>

definition deliver :: "handle \<Rightarrow> Signals \<Rightarrow> 'c controller \<Rightarrow> 'c controller" where
  "deliver w s st = (if w \<in> set (on_stop st) then worker_on_stop s st else st)"

text \<open>
  What the environment does while the controller is suspended in \<^verbatim>\<open>awatch\<close>: a signal
  reaches the worker, or the watcher has a batch of changes.
\<close>

datatype env_event = Signal Signals | Changes change_batch

subsection \<open>Sequencing with exceptions\<close>

text \<open>
  A computation of the controller ends in one of the ways a call can end, paired with the
  state it leaves: it returns, an exception leaves it, or it never returns (the coroutine
  stays suspended for ever; the state is then the one it is suspended in).
\<close>

type_synonym 'c comp = "'c outcome \<times> 'c controller"

text \<open>Statements in sequence: the next one runs only when the one before returned.\<close>

definition andthen :: "'c comp \<Rightarrow> ('c controller \<Rightarrow> 'c comp) \<Rightarrow> 'c comp" where
  "andthen r f = (case r of (Returned, st) \<Rightarrow> f st | (out, st) \<Rightarrow> (out, st))"

text \<open>
  Python's \<^verbatim>\<open>try: body finally: fin\<close>. When the body never returns, the
  \<^verbatim>\<open>finally\<close> clause never runs. When it returns or raises, the clause runs; an exception
  of the clause replaces the outcome of the body, and otherwise the outcome of the body stands.
\<close>

definition try_finally :: "'c comp \<Rightarrow> ('c controller \<Rightarrow> 'c comp) \<Rightarrow> 'c comp" where
  "try_finally body fin =
     (case body of
        (NeverReturns, st) \<Rightarrow> (NeverReturns, st)
      | (out, st) \<Rightarrow>
          (case fin st of
             (Returned, st') \<Rightarrow> (out, st')
           | (out', st') \<Rightarrow> (out', st')))"

subsection \<open>The watch-reload controller (cli.py, lines 69 to 92)\<close>

text \<open>
  The body of the \<^verbatim>\<open>async for\<close> (lines 87 to 90), on the worker \<open>w\<close> that the variable
  \<^verbatim>\<open>worker\<close> is bound to. The source never rebinds the variable: all four statements
  address the same worker object.
  \<^verbatim>\<open>
  print('\nfiles changed, reloading arq worker...')
  worker.handle_sig(Signals.SIGUSR1)
  await worker.close()
  loop.create_task(worker.async_run())
  \<close>
\<close>

definition reload_cycle :: "nat list \<Rightarrow> handle \<Rightarrow> 'c controller \<Rightarrow> 'c comp" where
  "reload_cycle F w st =
     andthen (invoke F Print st) (\<lambda>st.
     andthen (invoke F (HandleSig w SIGUSR1) st) (\<lambda>st.
     andthen (invoke F (Close w) (deliver w SIGUSR1 st)) (\<lambda>st.
     invoke F (CreateTask w) st)))"

text \<open>
  The loop \<^verbatim>\<open>async for _ in awatch(path, stop_event=stop_event)\<close> (line 86), run against
  what the environment does while the controller waits.

  Modelled from the spec: the watcher (\<^verbatim>\<open>watchfiles.awatch\<close>) is an external library.
  Its sequence of batches is "infinite while watching is active, terminated when the StopEvent
  is observed by the watcher subscription": asked for the next batch, it ends the iteration
  when \<^verbatim>\<open>stop_event\<close> is set; otherwise it waits. While it waits a signal may reach the
  worker (which runs the stop hook), or a batch arrives and is yielded to the loop. When the
  environment has nothing more to offer and \<^verbatim>\<open>stop_event\<close> is not set, the wait never
  ends.
\<close>

fun watch_loop :: "nat list \<Rightarrow> handle \<Rightarrow> env_event list \<Rightarrow> 'c controller \<Rightarrow> 'c comp" where
  "watch_loop F w [] st = (if stop_event st then (Returned, st) else (NeverReturns, st))"
| "watch_loop F w (Signal s # env) st =
     (if stop_event st then (Returned, st) else watch_loop F w env (deliver w s st))"
| "watch_loop F w (Changes b # env) st =
     (if stop_event st then (Returned, st)
      else andthen (andthen (invoke F (AwatchNext b) st) (reload_cycle F w)) (watch_loop F w env))"

text \<open>
  The host of one process: whether \<^verbatim>\<open>watchfiles\<close> can be imported, what the environment
  does while the controller waits, and which collaborator calls raise.
\<close>

record host =
  watchfiles_installed :: bool
  schedule :: "env_event list"
  faults :: "nat list"

text \<open>
  \<^verbatim>\<open>
  async def watch_reload(path, worker_settings):
      try:
          from watchfiles import awatch
      except ImportError as e:
          raise ImportError('watchfiles not installed, use `pip install watchfiles`') from e
      loop = asyncio.get_running_loop()
      stop_event = asyncio.Event()
      ...
      worker = create_worker(worker_settings)
      try:
          worker.on_stop = worker_on_stop
          loop.create_task(worker.async_run())
          async for _ in awatch(path, stop_event=stop_event):
              ...
      finally:
          await worker.close()
  \<close>
  \<^verbatim>\<open>create_worker\<close> is called before the \<^verbatim>\<open>try\<close>: when it raises, no
  \<^verbatim>\<open>finally\<close> clause runs. The worker it returns is the first of the process, worker 0.
  \<open>watch_try\<close> is the block under \<^verbatim>\<open>try\<close> (lines 84 to 90), \<open>watch_reload\<close> the
  whole coroutine.
\<close>

definition watch_try :: "nat list \<Rightarrow> handle \<Rightarrow> env_event list \<Rightarrow> 'c controller \<Rightarrow> 'c comp" where
  "watch_try F worker env st =
     andthen (invoke F (SetOnStop worker) st) (\<lambda>st.
     andthen (invoke F (CreateTask worker) (st\<lparr>on_stop := worker # on_stop st\<rparr>)) (\<lambda>st.
     watch_loop F worker env st))"

definition watch_reload :: "host \<Rightarrow> string \<Rightarrow> 'c \<Rightarrow> 'c comp" where
  "watch_reload h path worker_settings =
     (if \<not> watchfiles_installed h
      then (Uncaught (ImportError ''watchfiles not installed, use `pip install watchfiles`''), initial)
      else
        let F = faults h; worker = (0::handle) in
        andthen (invoke F (CreateWorker worker_settings worker) initial) (\<lambda>st.
          try_finally (watch_try F worker (schedule h) st) (invoke F (Close worker))))"

subsection \<open>The command (cli.py, lines 27 to 66)\<close>

text \<open>
  The parsed command line, as click hands it to \<^verbatim>\<open>cli\<close>: \<^verbatim>\<open>--burst/--no-burst\<close> has
  default \<^verbatim>\<open>None\<close>, \<^verbatim>\<open>--watch\<close> and \<^verbatim>\<open>--custom-log-dict\<close> are \<^verbatim>\<open>None\<close> when absent,
  \<^verbatim>\<open>--workers\<close> is any Python integer (default 1).
\<close>

record cli_args =
  worker_settings :: string
  burst :: "bool option"
  check :: bool
  watch :: "string option"
  workers :: int
  verbose :: bool
  custom_log_dict :: "string option"

text \<open>
  What \<^verbatim>\<open>cli\<close> hands to a process: the coroutine object \<^verbatim>\<open>watch_reload(watch, worker_settings_)\<close>
  and the two callables it starts, \<^verbatim>\<open>run_worker(worker_settings_, **kwargs)\<close> and
  \<^verbatim>\<open>asyncio.run(coroutine)\<close>. Keyword arguments are the items of the dict.
\<close>

datatype 'c coroutine = WatchReload string 'c

datatype 'c target =
    RunWorker 'c "(string \<times> bool) list"
  | AsyncioRun "'c coroutine"

text \<open>
  The effects of \<^verbatim>\<open>cli\<close> outside its own frame, one constructor per statement:
  \<^item> \<open>SysPathAppend\<close>: \<^verbatim>\<open>sys.path.append(os.getcwd())\<close>;
  \<^item> \<open>DictConfig c\<close>: \<^verbatim>\<open>logging.config.dictConfig(log_config)\<close> was called and returned;
  \<^item> \<open>CheckHealth c\<close>: \<^verbatim>\<open>check_health(worker_settings_)\<close> was called;
  \<^item> \<open>ProcessStart t\<close>: a \<^verbatim>\<open>Process(target=..., ...).start()\<close> returned, so a new process
    runs \<open>t\<close>;
  \<^item> \<open>Invoke t\<close>: \<open>t\<close> was called in the calling process.
\<close>

datatype 'c effect =
    SysPathAppend
  | DictConfig 'c
  | CheckHealth 'c
  | ProcessStart "'c target"
  | Invoke "'c target"

text \<open>
  Modelled from the spec: the functions that \<^verbatim>\<open>cli.py\<close> imports from the rest of the
  package (\<^verbatim>\<open>arq/utils.py\<close>, \<^verbatim>\<open>arq/logs.py\<close>, \<^verbatim>\<open>arq/worker.py\<close>) are parameters:
  \<^item> \<open>import_string\<close>: "resolve(locator: string) -> WorkerConfig, fails with a resolution
    error if the locator cannot be found/imported" (\<open>None\<close> is the failure);
  \<^item> \<open>default_log_config\<close>: the logging dictionary for a verbosity;
  \<^item> \<open>check_health\<close>: "check(config) -> int status", or the exception it raises;
  \<^item> \<open>run_worker\<close>: "runBlocking(config, overrides) -> never returns until complete",
    given by how the blocking call ends.

  Two more parameters describe the objects that these functions return, for the standard
  library calls of \<^verbatim>\<open>cli\<close>: \<open>dict_config c\<close> is the exception that
  \<^verbatim>\<open>logging.config.dictConfig(c)\<close> raises (\<open>None\<close> when it returns), and \<open>picklable c\<close>
  says whether \<^verbatim>\<open>pickle\<close> can serialise the settings object \<open>c\<close>.
\<close>

record 'c library =
  import_string :: "string \<Rightarrow> 'c option"
  default_log_config :: "bool \<Rightarrow> 'c"
  dict_config :: "'c \<Rightarrow> 'c error option"
  check_health :: "'c \<Rightarrow> 'c error + int"
  run_worker :: "'c \<Rightarrow> (string \<times> bool) list \<Rightarrow> 'c outcome"
  picklable :: "'c \<Rightarrow> bool"

text \<open>
  The machine that \<^verbatim>\<open>cli\<close> runs on: the start method of \<^verbatim>\<open>multiprocessing\<close>, the
  positions (counted from 0 among the \<^verbatim>\<open>Process.start\<close> calls of the run) of the starts that
  the operating system refuses, the host of the calling process and the host of each process
  that is started, by the position of its start.
\<close>

datatype start_method = Fork | Spawn | Forkserver

record machine =
  start_method :: start_method
  start_faults :: "nat list"
  caller :: host
  child :: "nat \<Rightarrow> host"

text \<open>
  What \<^verbatim>\<open>cli\<close> leaves behind: its effects in program order, how it ended, in watch mode the
  final state of the controller that ran in the calling process, and for every process it
  started, in the order of the starts, how the target ended there (with the final state of
  that process's controller in watch mode).
\<close>

record 'c run =
  effects :: "'c effect list"
  outcome :: "'c outcome"
  controller_state :: "'c controller option"
  processes :: "('c outcome \<times> 'c controller option) list"

text \<open>
  Python's truth test on an optional string (\<^verbatim>\<open>if watch:\<close>, \<^verbatim>\<open>if custom_log_dict:\<close>):
  \<^verbatim>\<open>None\<close> and the empty string are false. The result is the string when the test is true.
\<close>

definition truthy :: "string option \<Rightarrow> string option" where
  "truthy v = (case v of None \<Rightarrow> None | Some s \<Rightarrow> if s = [] then None else Some s)"

text \<open>
  Lines 46 to 49:
  \<^verbatim>\<open>
  if custom_log_dict:
      log_config = import_string(custom_log_dict)
  else:
      log_config = default_log_config(verbose)
  \<close>
\<close>

definition load_log_config :: "'c library \<Rightarrow> cli_args \<Rightarrow> 'c error + 'c" where
  "load_log_config L a =
     (case truthy (custom_log_dict a) of
        Some d \<Rightarrow> (case import_string L d of None \<Rightarrow> Inl (ImportStringFailed d) | Some c \<Rightarrow> Inr c)
      | None \<Rightarrow> Inr (default_log_config L (verbose a)))"

text \<open>
  \<^verbatim>\<open>Process(target=..., args=..., kwargs=...).start()\<close>. Under the start methods
  \<^verbatim>\<open>spawn\<close> and \<^verbatim>\<open>forkserver\<close> the arguments are pickled for the new process, and
  \<^verbatim>\<open>start\<close> raises \<^verbatim>\<open>TypeError\<close> when they cannot be: a coroutine object never can
  (\<^verbatim>\<open>cannot pickle 'coroutine' object\<close>), the arguments of \<^verbatim>\<open>run_worker\<close> can when the
  settings object can. Under \<^verbatim>\<open>fork\<close> the child inherits the arguments and nothing is
  pickled. Whatever the method, the operating system may refuse a start (\<^verbatim>\<open>OSError\<close>).
  \<open>process_start L M i t\<close> is the exception of the start at position \<open>i\<close>, \<open>None\<close> when it
  returns.
\<close>

definition can_pickle :: "'c library \<Rightarrow> 'c target \<Rightarrow> bool" where
  "can_pickle L t = (case t of RunWorker c k \<Rightarrow> picklable L c | AsyncioRun co \<Rightarrow> False)"

definition process_start :: "'c library \<Rightarrow> machine \<Rightarrow> nat \<Rightarrow> 'c target \<Rightarrow> 'c error option" where
  "process_start L M i t =
     (if start_method M \<noteq> Fork \<and> \<not> can_pickle L t then Some TypeError
      else if i \<in> set (start_faults M) then Some OSError
      else None)"

text \<open>
  Lines 58 to 60 and 63 to 65, the same loop in both modes:
  \<^verbatim>\<open>
  if workers > 1:
      for _ in range(workers - 1):
          Process(target=..., ...).start()
  \<close>
  \<open>start_loop L M t i n\<close> runs the last \<open>n\<close> passes of the loop, the next start being at
  position \<open>i\<close>; the result is the number of processes started and the exception that left
  the loop, if one did.
\<close>

fun start_loop :: "'c library \<Rightarrow> machine \<Rightarrow> 'c target \<Rightarrow> nat \<Rightarrow> nat \<Rightarrow> nat \<times> 'c error option" where
  "start_loop L M t i 0 = (0, None)"
| "start_loop L M t i (Suc n) =
     (case process_start L M i t of
        Some e \<Rightarrow> (0, Some e)
      | None \<Rightarrow> (case start_loop L M t (Suc i) n of (m, r) \<Rightarrow> (Suc m, r)))"

definition start_processes :: "'c library \<Rightarrow> machine \<Rightarrow> int \<Rightarrow> 'c target \<Rightarrow> nat \<times> 'c error option" where
  "start_processes L M n t = (if n > 1 then start_loop L M t 0 (nat (n - 1)) else (0, None))"

text \<open>\<^verbatim>\<open>asyncio.run(coroutine)\<close>: the coroutine runs to its end in the process that calls it.\<close>

definition asyncio_run :: "host \<Rightarrow> 'c coroutine \<Rightarrow> 'c comp" where
  "asyncio_run h co = (case co of WatchReload path ws \<Rightarrow> watch_reload h path ws)"

text \<open>A target called in a process on host \<open>h\<close>: how it ends, and the controller it ran.\<close>

definition run_target :: "'c library \<Rightarrow> host \<Rightarrow> 'c target \<Rightarrow> 'c outcome \<times> 'c controller option" where
  "run_target L h t =
     (case t of
        RunWorker c k \<Rightarrow> (run_worker L c k, None)
      | AsyncioRun co \<Rightarrow> (fst (asyncio_run h co), Some (snd (asyncio_run h co))))"

text \<open>
  Lines 58 to 61 and 63 to 66: the processes are started, then the target is called in the
  calling process. A start that raises ends \<^verbatim>\<open>cli\<close> there; the processes started before it
  keep running. \<open>prior\<close> holds the effects that precede.
\<close>

definition launch :: "'c library \<Rightarrow> machine \<Rightarrow> int \<Rightarrow> 'c effect list \<Rightarrow> 'c target \<Rightarrow> 'c run" where
  "launch L M n prior t =
     (case start_processes L M n t of
        (m, Some e) \<Rightarrow>
          \<lparr>effects = prior @ replicate m (ProcessStart t),
           outcome = Uncaught e,
           controller_state = None,
           processes = map (\<lambda>i. run_target L (child M i) t) [0..<m]\<rparr>
      | (m, None) \<Rightarrow>
          \<lparr>effects = prior @ replicate m (ProcessStart t) @ [Invoke t],
           outcome = fst (run_target L (caller M) t),
           controller_state = snd (run_target L (caller M) t),
           processes = map (\<lambda>i. run_target L (child M i) t) [0..<m]\<rparr>)"

text \<open>
  \<^verbatim>\<open>
  sys.path.append(os.getcwd())
  worker_settings_ = cast('WorkerSettingsType', import_string(worker_settings))
  ...
  logging.config.dictConfig(log_config)
  if check:
      exit(check_health(worker_settings_))
  else:
      kwargs = {} if burst is None else {'burst': burst}
      if watch:
          coroutine = watch_reload(watch, worker_settings_)
          ...
          asyncio.run(coroutine)
      else:
          ...
          run_worker(worker_settings_, **kwargs)
  \<close>
  Every call can end \<^verbatim>\<open>cli\<close> with its exception; \<^verbatim>\<open>exit(n)\<close> raises \<^verbatim>\<open>SystemExit(n)\<close>.
\<close>

definition cli :: "'c library \<Rightarrow> machine \<Rightarrow> cli_args \<Rightarrow> 'c run" where
  "cli L M a =
     (case import_string L (worker_settings a) of
        None \<Rightarrow>
          \<lparr>effects = [SysPathAppend],
           outcome = Uncaught (ImportStringFailed (worker_settings a)),
           controller_state = None, processes = []\<rparr>
      | Some worker_settings' \<Rightarrow>
          (case load_log_config L a of
             Inl e \<Rightarrow>
               \<lparr>effects = [SysPathAppend], outcome = Uncaught e,
                controller_state = None, processes = []\<rparr>
           | Inr log_config \<Rightarrow>
               (case dict_config L log_config of
                  Some e \<Rightarrow>
                    \<lparr>effects = [SysPathAppend], outcome = Uncaught e,
                     controller_state = None, processes = []\<rparr>
                | None \<Rightarrow>
                    let prior = [SysPathAppend, DictConfig log_config] in
                    if check a then
                      \<lparr>effects = prior @ [CheckHealth worker_settings'],
                       outcome = (case check_health L worker_settings' of
                                    Inl e \<Rightarrow> Uncaught e
                                  | Inr n \<Rightarrow> SystemExit n),
                       controller_state = None, processes = []\<rparr>
                    else
                      let kwargs = (case burst a of None \<Rightarrow> [] | Some b \<Rightarrow> [(''burst'', b)]) in
                      (case truthy (watch a) of
                         Some path \<Rightarrow>
                           let coroutine = WatchReload path worker_settings'
                           in launch L M (workers a) prior (AsyncioRun coroutine)
                       | None \<Rightarrow>
                           launch L M (workers a) prior (RunWorker worker_settings' kwargs)))))"

text \<open>
  The exit code of the process (POSIX, CPython): 0 when \<^verbatim>\<open>cli\<close> returns, 1 for an uncaught
  exception, and for \<^verbatim>\<open>SystemExit(n)\<close> the low eight bits of \<open>n\<close> when \<open>n\<close> fits a C
  \<^verbatim>\<open>long\<close>, 255 when it does not. A process that never ends has none.
\<close>

definition exit_code :: "'c outcome \<Rightarrow> int option" where
  "exit_code out =
     (case out of
        Returned \<Rightarrow> Some 0
      | SystemExit n \<Rightarrow>
          Some (if - (2 ^ 63) \<le> n \<and> n < 2 ^ 63 then n mod 256 else 255)
      | Uncaught e \<Rightarrow> Some 1
      | NeverReturns \<Rightarrow> None)"

text \<open>The targets that were started in new processes, and those called in the calling process.\<close>

fun spawned :: "'c effect list \<Rightarrow> 'c target list" where
  "spawned [] = []"
| "spawned (ProcessStart t # es) = t # spawned es"
| "spawned (e # es) = spawned es"

fun invoked :: "'c effect list \<Rightarrow> 'c target list" where
  "invoked [] = []"
| "invoked (Invoke t # es) = t # invoked es"
| "invoked (e # es) = invoked es"

fun health_checks :: "'c effect list \<Rightarrow> 'c list" where
  "health_checks [] = []"
| "health_checks (CheckHealth c # es) = c # health_checks es"
| "health_checks (e # es) = health_checks es"

text \<open>The entry point that \<^verbatim>\<open>cli\<close> selects when \<^verbatim>\<open>check\<close> is false.\<close>

definition selected :: "cli_args \<Rightarrow> 'c \<Rightarrow> 'c target" where
  "selected a ws =
     (case truthy (watch a) of
        Some path \<Rightarrow> AsyncioRun (WatchReload path ws)
      | None \<Rightarrow> RunWorker ws (case burst a of None \<Rightarrow> [] | Some b \<Rightarrow> [(''burst'', b)]))"

text \<open>The first \<open>n\<close> starts of target \<open>t\<close> all return.\<close>

definition starts_return :: "'c library \<Rightarrow> machine \<Rightarrow> 'c target \<Rightarrow> nat \<Rightarrow> bool" where
  "starts_return L M t n = list_all (\<lambda>i. process_start L M i t = None) [0..<n]"

subsection \<open>Reading a trace\<close>

text \<open>The workers that \<^verbatim>\<open>create_worker\<close> was asked for, in the order of the calls.\<close>

fun constructed :: "'c call list \<Rightarrow> handle list" where
  "constructed [] = []"
| "constructed (CreateWorker c h # tr) = h # constructed tr"
| "constructed (x # tr) = constructed tr"

text \<open>
  Modelled from the spec: the life cycle of a worker is the worker library's (a worker
  "enters a running state via run to completion or run cooperatively" and leaves it by
  "explicit close"). The runs in progress after a trace: a run starts when \<^verbatim>\<open>create_task\<close>
  schedules \<^verbatim>\<open>worker.async_run()\<close>, and the runs of a worker are over when its \<^verbatim>\<open>close\<close>
  has been awaited. The list holds the worker of every run in progress, once per run, so its
  length bounds both the runs and the workers that are running.
\<close>

fun run_step :: "handle list \<Rightarrow> 'c call \<Rightarrow> handle list" where
  "run_step R (CreateTask h) = h # R"
| "run_step R (Close h) = removeAll h R"
| "run_step R x = R"

definition running :: "'c call list \<Rightarrow> handle list" where
  "running tr = foldl run_step [] tr"

text \<open>
  No worker is run after it has been closed: \<open>never_rerun D tr\<close> reads the trace \<open>tr\<close>
  with \<open>D\<close> the workers closed before it.
\<close>

fun never_rerun :: "handle list \<Rightarrow> 'c call list \<Rightarrow> bool" where
  "never_rerun D [] = True"
| "never_rerun D (Close h # tr) = never_rerun (h # D) tr"
| "never_rerun D (CreateTask h # tr) = (h \<notin> set D \<and> never_rerun D tr)"
| "never_rerun D (x # tr) = never_rerun D tr"

text \<open>
  Two consecutive calls \<open>x\<close>, \<open>y\<close> are in order when \<open>y\<close> schedules no run, or \<open>x\<close> is
  the installation of the stop hook on the same worker (the first run) or the close of the
  same worker (a later run).
\<close>

definition guarded :: "'c call \<Rightarrow> 'c call \<Rightarrow> bool" where
  "guarded x y = (case y of CreateTask h \<Rightarrow> x = SetOnStop h \<or> x = Close h | _ \<Rightarrow> True)"

text \<open>The calls of one complete reload, from the batch to the new run.\<close>

definition cycle_calls :: "handle \<Rightarrow> change_batch \<Rightarrow> 'c call list" where
  "cycle_calls w b = [AwatchNext b, Print, HandleSig w SIGUSR1, Close w, CreateTask w]"

text \<open>
  What an environment holds for a waiting controller: whether a signal other than
  \<^verbatim>\<open>SIGUSR1\<close> arrives, and the batches that arrive before the first such signal.
\<close>

fun stops :: "env_event list \<Rightarrow> bool" where
  "stops [] = False"
| "stops (Signal s # env) = (s \<noteq> SIGUSR1 \<or> stops env)"
| "stops (Changes b # env) = stops env"

fun accepted :: "env_event list \<Rightarrow> change_batch list" where
  "accepted [] = []"
| "accepted (Signal s # env) = (if s \<noteq> SIGUSR1 then [] else accepted env)"
| "accepted (Changes b # env) = b # accepted env"

subsection \<open>A sample installation\<close>

text \<open>
  A library that resolves two locators, accepts every logging dictionary, reports an unhealthy
  worker (status 1), has picklable settings and whose blocking run returns; a command line for
  it; a host on which one batch of changes arrives before \<^verbatim>\<open>SIGINT\<close>; and a machine with
  the start method \<^verbatim>\<open>fork\<close> on which every process runs on such a host.
\<close>

definition demo_library :: "string library" where
  "demo_library =
     \<lparr>import_string = (\<lambda>s. if s = ''demo.WorkerSettings'' then Some ''WorkerSettings''
                            else if s = ''demo.log_dict'' then Some ''log_dict'' else None),
      default_log_config = (\<lambda>v. if v then ''verbose'' else ''standard''),
      dict_config = (\<lambda>c. None),
      check_health = (\<lambda>c. Inr 1),
      run_worker = (\<lambda>c k. Returned),
      picklable = (\<lambda>c. True)\<rparr>"

definition demo_args :: cli_args where
  "demo_args =
     \<lparr>worker_settings = ''demo.WorkerSettings'', burst = None, check = False, watch = None,
      workers = 1, verbose = False, custom_log_dict = None\<rparr>"

definition demo_host :: host where
  "demo_host =
     \<lparr>watchfiles_installed = True, schedule = [Changes [''a.py''], Signal SIGINT], faults = []\<rparr>"

definition demo_machine :: machine where
  "demo_machine =
     \<lparr>start_method = Fork, start_faults = [], caller = demo_host, child = (\<lambda>i. demo_host)\<rparr>"

text \<open>The same library with a health check that returns the status 256.\<close>

definition status_256_library :: "string library" where
  "status_256_library = demo_library\<lparr>check_health := (\<lambda>c. Inr 256)\<rparr>"

section \<open>Properties of the stop hook\<close>

text \<open>
  Claim C3. For every signal delivered to the stop hook: \<^verbatim>\<open>SIGUSR1\<close> (the reload signal)
  leaves the whole state as it was, once or \<open>n\<close> times over; every other signal sets
  \<^verbatim>\<open>stop_event\<close> and changes nothing else, and delivering it once more, any number of
  times, gives the state that one delivery gives.
\<close>

theorem worker_on_stop_disambiguates:
  "worker_on_stop SIGUSR1 st = st
   \<and> (worker_on_stop SIGUSR1 ^^ n) st = st
   \<and> (s \<noteq> SIGUSR1 \<longrightarrow> worker_on_stop s st = st\<lparr>stop_event := True\<rparr>)
   \<and> (s \<noteq> SIGUSR1 \<longrightarrow> stop_event (worker_on_stop s st)
         \<and> trace (worker_on_stop s st) = trace st \<and> on_stop (worker_on_stop s st) = on_stop st)
   \<and> (s \<noteq> SIGUSR1 \<longrightarrow> worker_on_stop s (worker_on_stop s st) = worker_on_stop s st)
   \<and> (s \<noteq> SIGUSR1 \<longrightarrow> (worker_on_stop s ^^ Suc n) st = worker_on_stop s st)"
proof -
  have reload: "(worker_on_stop SIGUSR1 ^^ k) st = st" for k
    by (induction k) (simp_all add: worker_on_stop_def)
  have other: "(worker_on_stop s ^^ Suc k) st = st\<lparr>stop_event := True\<rparr>" if "s \<noteq> SIGUSR1" for k
    using that by (induction k) (simp_all add: worker_on_stop_def)
  show ?thesis
    using reload [of n] other [of n] by (simp add: worker_on_stop_def)
qed

theorem worker_on_stop_disambiguates_witness:
  "worker_on_stop SIGUSR1 (initial :: unit controller) = initial
   \<and> worker_on_stop SIGINT (initial :: unit controller) = \<lparr>stop_event = True, trace = [], on_stop = []\<rparr>
   \<and> (worker_on_stop SIGTERM ^^ 3) (initial :: unit controller) = worker_on_stop SIGTERM initial"
  using worker_on_stop_disambiguates [of "initial :: unit controller" 2 SIGINT]
    worker_on_stop_disambiguates [of "initial :: unit controller" 2 SIGTERM]
  by (simp add: initial_def numeral_3_eq_3 numeral_2_eq_2 worker_on_stop_def)

section \<open>Properties of the watch-reload controller\<close>

subsection \<open>Calls, sequencing and one pass of the loop\<close>

lemma invoke_no_faults: "invoke [] c st = (Returned, st\<lparr>trace := trace st @ [c]\<rparr>)"
  by (simp add: invoke_def Let_def)

lemma deliver_reload: "deliver w SIGUSR1 st = st"
  by (simp add: deliver_def worker_on_stop_def)

lemma andthen_Returned: "andthen (Returned, st) f = f st"
  by (simp add: andthen_def)

text \<open>One pass of the loop body, under any faults: a non-empty prefix of the cycle's calls.\<close>

lemma cycle_trace:
  assumes "andthen (invoke F (AwatchNext b) st) (reload_cycle F w) = (out, st')"
  shows "\<exists>k. 0 < k \<and> k \<le> 5 \<and> trace st' = trace st @ take k (cycle_calls w b)
           \<and> (if out = Returned then k = 5 else out = Uncaught (CallRaised (cycle_calls w b ! (k - 1))))
           \<and> stop_event st' = stop_event st \<and> on_stop st' = on_stop st"
proof -
  let ?A = "length (trace st) \<in> set F"
  let ?B = "Suc (length (trace st)) \<in> set F"
  let ?C = "Suc (Suc (length (trace st))) \<in> set F"
  let ?D = "Suc (Suc (Suc (length (trace st)))) \<in> set F"
  let ?E = "Suc (Suc (Suc (Suc (length (trace st))))) \<in> set F"
  consider (1) ?A | (2) "\<not> ?A" ?B | (3) "\<not> ?A" "\<not> ?B" ?C | (4) "\<not> ?A" "\<not> ?B" "\<not> ?C" ?D
    | (5) "\<not> ?A" "\<not> ?B" "\<not> ?C" "\<not> ?D" ?E | (6) "\<not> ?A" "\<not> ?B" "\<not> ?C" "\<not> ?D" "\<not> ?E"
    by blast
  then show ?thesis
  proof cases
    case 1
    with assms show ?thesis
      by (intro exI [of _ 1]) (auto simp: invoke_def andthen_def cycle_calls_def)
  next
    case 2
    with assms show ?thesis
      by (intro exI [of _ 2]) (auto simp: invoke_def andthen_def reload_cycle_def cycle_calls_def numeral_2_eq_2)
  next
    case 3
    with assms show ?thesis
      by (intro exI [of _ 3]) (auto simp: invoke_def andthen_def reload_cycle_def cycle_calls_def numeral_3_eq_3)
  next
    case 4
    with assms show ?thesis
      by (intro exI [of _ 4]) (auto simp: invoke_def andthen_def reload_cycle_def cycle_calls_def deliver_reload eval_nat_numeral)
  next
    case 5
    with assms show ?thesis
      by (intro exI [of _ 5]) (auto simp: invoke_def andthen_def reload_cycle_def cycle_calls_def deliver_reload eval_nat_numeral)
  next
    case 6
    with assms show ?thesis
      by (intro exI [of _ 5]) (auto simp: invoke_def andthen_def reload_cycle_def cycle_calls_def deliver_reload eval_nat_numeral)
  qed
qed

lemma watch_loop_stopped: "stop_event st \<Longrightarrow> watch_loop F w env st = (Returned, st)"
  by (cases env rule: stops.cases) simp_all

lemma watch_loop_rule:
  assumes "P st"
    and sig: "\<And>st s. P st \<Longrightarrow> \<not> stop_event st \<Longrightarrow> P (deliver w s st)"
    and cyc: "\<And>st b out st'. P st \<Longrightarrow> \<not> stop_event st \<Longrightarrow>
                andthen (invoke F (AwatchNext b) st) (reload_cycle F w) = (out, st') \<Longrightarrow>
                (if out = Returned then P st' else Q out st')"
    and ret: "\<And>st. P st \<Longrightarrow> stop_event st \<Longrightarrow> Q Returned st"
    and blk: "\<And>st. P st \<Longrightarrow> \<not> stop_event st \<Longrightarrow> Q NeverReturns st"
  shows "Q (fst (watch_loop F w env st)) (snd (watch_loop F w env st))"
  using assms(1)
proof (induction env arbitrary: st)
  case Nil
  then show ?case using ret blk by simp
next
  case (Cons e env)
  show ?case
  proof (cases "stop_event st")
    case True
    then show ?thesis using ret [OF Cons.prems] by (simp add: watch_loop_stopped)
  next
    case False
    show ?thesis
    proof (cases e)
      case (Signal s)
      then show ?thesis using False Cons.IH [OF sig [OF Cons.prems False]] by simp
    next
      case (Changes b)
      obtain out st' where c: "andthen (invoke F (AwatchNext b) st) (reload_cycle F w) = (out, st')"
        by (cases "andthen (invoke F (AwatchNext b) st) (reload_cycle F w)")
      show ?thesis
      proof (cases "out = Returned")
        case True
        then have "P st'" using cyc [OF Cons.prems False c] by simp
        then show ?thesis using Cons.IH [of st'] Changes False c True by (simp add: andthen_def)
      next
        case False
        then have "Q out st'" using cyc [OF Cons.prems \<open>\<not> stop_event st\<close> c] by simp
        then show ?thesis using Changes \<open>\<not> stop_event st\<close> c False
          by (cases out) (simp_all add: andthen_def)
      qed
    qed
  qed
qed

lemma cycle_prefix_cases:
  assumes "0 < k" "k \<le> 5"
  shows "take k (cycle_calls w b) = [AwatchNext b]
       \<or> take k (cycle_calls w b) = [AwatchNext b, Print]
       \<or> take k (cycle_calls w b) = [AwatchNext b, Print, HandleSig w SIGUSR1]
       \<or> take k (cycle_calls w b) = [AwatchNext b, Print, HandleSig w SIGUSR1, Close w]
       \<or> (k = 5 \<and> take k (cycle_calls w b) = cycle_calls w b)"
proof -
  from assms have "k = 1 \<or> k = 2 \<or> k = 3 \<or> k = 4 \<or> k = 5" by arith
  then show ?thesis by (auto simp: cycle_calls_def take_Cons')
qed

lemma running_append: "running (xs @ ys) = foldl run_step (running xs) ys"
  by (simp add: running_def)

lemma prefixes_append:
  assumes "\<forall>n. length (running (take n tr)) \<le> 1"
    and "\<forall>m. length (foldl run_step (running tr) (take m ext)) \<le> 1"
  shows "\<forall>n. length (running (take n (tr @ ext))) \<le> 1"
proof
  fix n
  show "length (running (take n (tr @ ext))) \<le> 1"
  proof (cases "n \<le> length tr")
    case True
    then show ?thesis using assms(1) by simp
  next
    case False
    then show ?thesis using assms(2) by (simp add: running_append)
  qed
qed

lemma watch_try_unfold:
  "watch_try F w env st =
     (if length (trace st) \<in> set F
      then (Uncaught (CallRaised (SetOnStop w)), st\<lparr>trace := trace st @ [SetOnStop w]\<rparr>)
      else if Suc (length (trace st)) \<in> set F
      then (Uncaught (CallRaised (CreateTask w)),
            st\<lparr>on_stop := w # on_stop st, trace := trace st @ [SetOnStop w, CreateTask w]\<rparr>)
      else watch_loop F w env
            (st\<lparr>on_stop := w # on_stop st, trace := trace st @ [SetOnStop w, CreateTask w]\<rparr>))"
  by (simp add: watch_try_def invoke_def andthen_def Let_def)

lemma try_finally_close:
  "try_finally (out, st) (invoke F (Close w)) =
     (if out = NeverReturns then (NeverReturns, st)
      else (if length (trace st) \<in> set F then Uncaught (CallRaised (Close w)) else out,
            st\<lparr>trace := trace st @ [Close w]\<rparr>))"
  by (cases out) (simp_all add: try_finally_def invoke_def Let_def)

text \<open>The whole coroutine in terms of its try block.\<close>

lemma watch_reload_unfold:
  assumes "watchfiles_installed h"
  shows "watch_reload h p c =
     (if 0 \<in> set (faults h)
      then (Uncaught (CallRaised (CreateWorker c 0)), initial\<lparr>trace := [CreateWorker c 0]\<rparr>)
      else try_finally (watch_try (faults h) 0 (schedule h) (initial\<lparr>trace := [CreateWorker c 0]\<rparr>))
             (invoke (faults h) (Close 0)))"
  using assms by (simp add: watch_reload_def invoke_def andthen_def Let_def initial_def)

text \<open>Invariant transfer for the try block, from the state in which the worker exists.\<close>

lemma watch_try_rule:
  assumes e1: "length (trace st) \<in> set F \<Longrightarrow>
               Q (Uncaught (CallRaised (SetOnStop w))) (st\<lparr>trace := trace st @ [SetOnStop w]\<rparr>)"
    and e2: "length (trace st) \<notin> set F \<Longrightarrow> Suc (length (trace st)) \<in> set F \<Longrightarrow>
               Q (Uncaught (CallRaised (CreateTask w)))
                 (st\<lparr>on_stop := w # on_stop st, trace := trace st @ [SetOnStop w, CreateTask w]\<rparr>)"
    and p: "length (trace st) \<notin> set F \<Longrightarrow> Suc (length (trace st)) \<notin> set F \<Longrightarrow>
               P (st\<lparr>on_stop := w # on_stop st, trace := trace st @ [SetOnStop w, CreateTask w]\<rparr>)"
    and sig: "\<And>st s. P st \<Longrightarrow> \<not> stop_event st \<Longrightarrow> P (deliver w s st)"
    and cyc: "\<And>st b out st'. P st \<Longrightarrow> \<not> stop_event st \<Longrightarrow>
                andthen (invoke F (AwatchNext b) st) (reload_cycle F w) = (out, st') \<Longrightarrow>
                (if out = Returned then P st' else Q out st')"
    and ret: "\<And>st. P st \<Longrightarrow> stop_event st \<Longrightarrow> Q Returned st"
    and blk: "\<And>st. P st \<Longrightarrow> \<not> stop_event st \<Longrightarrow> Q NeverReturns st"
  shows "Q (fst (watch_try F w env st)) (snd (watch_try F w env st))"
proof (cases "length (trace st) \<in> set F")
  case True
  then show ?thesis using e1 by (simp add: watch_try_unfold)
next
  case False
  show ?thesis
  proof (cases "Suc (length (trace st)) \<in> set F")
    case True
    then show ?thesis using False e2 by (simp add: watch_try_unfold)
  next
    case n: False
    show ?thesis
      using watch_loop_rule [of P _ w F Q env, OF p [OF False n] sig cyc ret blk] False n
      by (simp add: watch_try_unfold)
  qed
qed

subsection \<open>Invariants of the try block\<close>

lemma deliver_fields: "trace (deliver w s st) = trace st" "on_stop (deliver w s st) = on_stop st"
  "stop_event st \<Longrightarrow> stop_event (deliver w s st)"
  by (simp_all add: deliver_def worker_on_stop_def)

lemma watch_try_ends:
  "(fst (watch_try F w env st) = Returned \<and> stop_event (snd (watch_try F w env st)))
   \<or> (fst (watch_try F w env st) = NeverReturns \<and> \<not> stop_event (snd (watch_try F w env st)))
   \<or> (\<exists>c. fst (watch_try F w env st) = Uncaught (CallRaised c))"
proof (rule watch_try_rule [where P = "\<lambda>st. True"
      and Q = "\<lambda>out st. (out = Returned \<and> stop_event st) \<or> (out = NeverReturns \<and> \<not> stop_event st)
                 \<or> (\<exists>c. out = Uncaught (CallRaised c))"], goal_cases)
  case (5 st b out st')
  from cycle_trace [OF 5(3)] show ?case by auto
qed simp_all

lemma watch_try_guarded:
  fixes st :: "'c controller"
  assumes "successively guarded (trace st)" and "trace st \<noteq> []"
  shows "successively guarded (trace (snd (watch_try F w env st)))
       \<and> trace (snd (watch_try F w env st)) \<noteq> []"
proof (rule watch_try_rule [where P = "\<lambda>st. successively guarded (trace st) \<and> trace st \<noteq> []"
      and Q = "\<lambda>out st. successively guarded (trace st) \<and> trace st \<noteq> []"], goal_cases)
  case 1
  then show ?case using assms by (simp add: successively_append_iff guarded_def)
next
  case 2
  then show ?case using assms by (simp add: successively_append_iff guarded_def)
next
  case 3
  then show ?case using assms by (simp add: successively_append_iff guarded_def)
next
  case (4 st s)
  then show ?case by (simp add: deliver_fields)
next
  case (5 st b out st')
  from cycle_trace [OF 5(3)] obtain k where k: "0 < k" "k \<le> 5"
    "trace st' = trace st @ take k (cycle_calls w b)" by blast
  define ext :: "'c call list" where "ext = take k (cycle_calls w b)"
  have "ext = [AwatchNext b] \<or> ext = [AwatchNext b, Print]
      \<or> ext = [AwatchNext b, Print, HandleSig w SIGUSR1]
      \<or> ext = [AwatchNext b, Print, HandleSig w SIGUSR1, Close w]
      \<or> ext = [AwatchNext b, Print, HandleSig w SIGUSR1, Close w, CreateTask w]"
    using cycle_prefix_cases [OF k(1,2), of w b] by (auto simp: ext_def cycle_calls_def)
  moreover have "trace st' = trace st @ ext" by (simp add: k(3) ext_def)
  ultimately show ?case using 5(1)
    by (auto simp: successively_append_iff guarded_def)
qed simp_all

lemma cycle_runs: "length (foldl run_step [w] (take m (cycle_calls w b))) \<le> 1"
  by (simp add: cycle_calls_def take_Cons')

lemma watch_try_prefixes:
  assumes "\<forall>n. length (running (take n (trace st))) \<le> 1" and "running (trace st) = []"
  shows "(\<forall>n. length (running (take n (trace (snd (watch_try F w env st))))) \<le> 1)
       \<and> length (running (trace (snd (watch_try F w env st)))) \<le> 1"
proof (rule watch_try_rule [where
      P = "\<lambda>st. (\<forall>n. length (running (take n (trace st))) \<le> 1) \<and> running (trace st) = [w]"
      and Q = "\<lambda>out st. (\<forall>n. length (running (take n (trace st))) \<le> 1)
                 \<and> length (running (trace st)) \<le> 1"], goal_cases)
  case 1
  have "\<forall>n. length (running (take n (trace st @ [SetOnStop w]))) \<le> 1"
    using assms by (intro prefixes_append) (simp_all add: take_Cons')
  then show ?case using assms by (simp add: running_append)
next
  case 2
  have "\<forall>n. length (running (take n (trace st @ [SetOnStop w, CreateTask w]))) \<le> 1"
    using assms by (intro prefixes_append) (simp_all add: take_Cons')
  then show ?case using assms by (simp add: running_append)
next
  case 3
  have "\<forall>n. length (running (take n (trace st @ [SetOnStop w, CreateTask w]))) \<le> 1"
    using assms by (intro prefixes_append) (simp_all add: take_Cons')
  then show ?case using assms by (simp add: running_append)
next
  case (4 st s)
  then show ?case by (simp add: deliver_fields)
next
  case (5 st b out st')
  from cycle_trace [OF 5(3)] obtain k where k: "0 < k" "k \<le> 5"
    "trace st' = trace st @ take k (cycle_calls w b)" "out = Returned \<longrightarrow> k = 5"
    by (metis (full_types))
  have a: "\<forall>n. length (running (take n (trace st'))) \<le> 1"
    unfolding k(3) using 5(1) by (intro prefixes_append) (simp_all add: cycle_runs [simplified])
  have b: "length (running (trace st')) \<le> 1"
    using a [rule_format, of "length (trace st')"] by simp
  have c: "running (trace st') = [w]" if "out = Returned"
    using that k 5(1) by (simp add: running_append cycle_calls_def)
  show ?case using a b c by simp
qed simp_all

text \<open>Without faults the loop is determined by what the environment holds.\<close>

lemma reload_cycle_no_faults:
  "andthen (invoke [] (AwatchNext b) st) (reload_cycle [] w) =
     (Returned, st\<lparr>trace := trace st @ cycle_calls w b\<rparr>)"
  by (simp add: invoke_no_faults andthen_def reload_cycle_def deliver_reload cycle_calls_def)

lemma watch_loop_no_faults:
  assumes "\<not> stop_event st" and "w \<in> set (on_stop st)"
  shows "watch_loop [] w env st =
     (if stops env then Returned else NeverReturns,
      st\<lparr>stop_event := stops env,
         trace := trace st @ concat (map (cycle_calls w) (accepted env))\<rparr>)"
  using assms
proof (induction env arbitrary: st rule: stops.induct)
  case 1
  then show ?case by simp
next
  case (2 s env)
  show ?case
  proof (cases "s = SIGUSR1")
    case True
    then show ?thesis using 2 by (simp add: deliver_reload)
  next
    case False
    then have "stop_event (deliver w s st)" using 2(3) by (simp add: deliver_def worker_on_stop_def)
    then show ?thesis using 2(2,3) False
      by (simp add: watch_loop_stopped) (simp add: deliver_def worker_on_stop_def)
  qed
next
  case (3 b env)
  then show ?case by (simp add: reload_cycle_no_faults andthen_Returned)
qed

text \<open>Which calls returned: all but the one that raised, which is the last of its block.\<close>

lemma invoke_returned:
  assumes "\<forall>i < length (trace st). i \<notin> set F"
  shows "if fst (invoke F c st) = Returned
         then \<forall>i < length (trace (snd (invoke F c st))). i \<notin> set F
         else \<forall>i. Suc i < length (trace (snd (invoke F c st))) \<longrightarrow> i \<notin> set F"
  using assms by (auto simp: invoke_def Let_def less_Suc_eq)

lemma andthen_rule:
  assumes "if fst r = Returned then P (snd r) else Q (snd r)"
    and "\<And>st. P st \<Longrightarrow> if fst (f st) = Returned then P' (snd (f st)) else Q (snd (f st))"
  shows "if fst (andthen r f) = Returned then P' (snd (andthen r f)) else Q (snd (andthen r f))"
  using assms by (cases r; cases "fst r") (auto simp: andthen_def)

lemma cycle_returned:
  fixes st :: "'c controller"
  assumes "\<forall>i < length (trace st). i \<notin> set F"
  shows "if fst (andthen (invoke F (AwatchNext b) st) (reload_cycle F w)) = Returned
         then \<forall>i < length (trace (snd (andthen (invoke F (AwatchNext b) st) (reload_cycle F w)))). i \<notin> set F
         else \<forall>i. Suc i < length (trace (snd (andthen (invoke F (AwatchNext b) st) (reload_cycle F w))))
                \<longrightarrow> i \<notin> set F"
  unfolding reload_cycle_def deliver_reload
  by (intro andthen_rule [where P = "\<lambda>st :: 'c controller. \<forall>i < length (trace st). i \<notin> set F"]
      invoke_returned assms)

lemma watch_try_returned:
  fixes st :: "'c controller"
  assumes "\<forall>i < length (trace st). i \<notin> set F"
  shows "\<forall>i. Suc i < length (trace (snd (watch_try F w env st))) \<longrightarrow> i \<notin> set F"
proof (rule watch_try_rule [where P = "\<lambda>st :: 'c controller. \<forall>i < length (trace st). i \<notin> set F"
      and Q = "\<lambda>out st. \<forall>i. Suc i < length (trace st) \<longrightarrow> i \<notin> set F"], goal_cases)
  case 1
  then show ?case using assms by (auto simp: less_Suc_eq)
next
  case 2
  then show ?case using assms by (auto simp: less_Suc_eq)
next
  case 3
  then show ?case using assms by (auto simp: less_Suc_eq)
next
  case (4 st s)
  then show ?case by (simp add: deliver_fields)
next
  case (5 st b out st')
  from cycle_returned [OF 5(1), of b w] show ?case unfolding 5(3) by simp
next
  case (6 st)
  then show ?case using Suc_lessD by blast
next
  case (7 st)
  then show ?case using Suc_lessD by blast
qed

subsection \<open>The whole coroutine\<close>

lemma try_finally_close_fields:
  "fst (try_finally r (invoke F (Close w))) = NeverReturns \<longleftrightarrow> fst r = NeverReturns"
  "trace (snd (try_finally r (invoke F (Close w)))) =
     (if fst r = NeverReturns then trace (snd r) else trace (snd r) @ [Close w])"
  "stop_event (snd (try_finally r (invoke F (Close w)))) = stop_event (snd r)"
  "fst (try_finally r (invoke F (Close w))) = Returned \<Longrightarrow> fst r = Returned"
  by (cases r; simp add: try_finally_close split: if_splits)+

lemma watch_reload_guarded:
  "successively guarded (trace (snd (watch_reload h p c)))"
proof (cases "watchfiles_installed h")
  case False
  then show ?thesis by (simp add: watch_reload_def initial_def)
next
  case True
  let ?st = "(initial :: 'a controller)\<lparr>trace := [CreateWorker c 0]\<rparr>"
  have "successively guarded (trace (snd (watch_try (faults h) 0 (schedule h) ?st)))
      \<and> trace (snd (watch_try (faults h) 0 (schedule h) ?st)) \<noteq> []"
    by (rule watch_try_guarded) simp_all
  then show ?thesis using True
    by (simp add: watch_reload_unfold try_finally_close_fields successively_append_iff guarded_def)
qed

lemma watch_reload_last:
  assumes "watchfiles_installed h" and "0 \<notin> set (faults h)"
    and "fst (watch_reload h p c) \<noteq> NeverReturns"
  shows "trace (snd (watch_reload h p c)) \<noteq> [] \<and> last (trace (snd (watch_reload h p c))) = Close 0"
  using assms by (simp add: watch_reload_unfold try_finally_close_fields)

lemma watch_reload_prefixes:
  "\<forall>n. length (running (take n (trace (snd (watch_reload h p c))))) \<le> 1"
proof (cases "watchfiles_installed h")
  case False
  then show ?thesis by (simp add: watch_reload_def initial_def running_def)
next
  case True
  let ?st = "(initial :: 'a controller)\<lparr>trace := [CreateWorker c 0]\<rparr>"
  let ?r = "watch_try (faults h) 0 (schedule h) ?st"
  have st: "\<forall>n. length (running (take n (trace ?st))) \<le> 1" "running (trace ?st) = []"
    by (simp_all add: running_def take_Cons')
  have body: "\<forall>n. length (running (take n (trace (snd ?r)))) \<le> 1"
    "length (running (trace (snd ?r))) \<le> 1"
    using watch_try_prefixes [OF st] by simp_all
  have closed: "\<forall>n. length (running (take n (trace (snd ?r) @ [Close 0]))) \<le> 1"
  proof (rule prefixes_append [OF body(1)], rule allI)
    fix m
    have "length (removeAll 0 (running (trace (snd ?r)))) \<le> length (running (trace (snd ?r)))"
      by simp
    then have "length (removeAll 0 (running (trace (snd ?r)))) \<le> 1"
      using body(2) by (rule order_trans)
    then show "length (foldl run_step (running (trace (snd ?r))) (take m [Close 0])) \<le> 1"
      using body(2) by (simp add: take_Cons')
  qed
  show ?thesis
  proof (cases "0 \<in> set (faults h)")
    case True
    then show ?thesis using \<open>watchfiles_installed h\<close> st(1) by (simp add: watch_reload_unfold)
  next
    case False
    then show ?thesis using \<open>watchfiles_installed h\<close> body(1) closed
      by (simp add: watch_reload_unfold try_finally_close_fields)
  qed
qed

lemma watch_reload_ends:
  "(fst (watch_reload h p c) = Returned \<and> stop_event (snd (watch_reload h p c)))
   \<or> (fst (watch_reload h p c) = NeverReturns \<and> \<not> stop_event (snd (watch_reload h p c)))
   \<or> (\<exists>x. fst (watch_reload h p c) = Uncaught (CallRaised x))
   \<or> (\<not> watchfiles_installed h \<and> watch_reload h p c =
        (Uncaught (ImportError ''watchfiles not installed, use `pip install watchfiles`''), initial))"
proof (cases "watchfiles_installed h")
  case False
  then show ?thesis by (simp add: watch_reload_def)
next
  case True
  let ?st = "(initial :: 'a controller)\<lparr>trace := [CreateWorker c 0]\<rparr>"
  let ?r = "watch_try (faults h) 0 (schedule h) ?st"
  show ?thesis
  proof (cases "0 \<in> set (faults h)")
    case True
    then show ?thesis using \<open>watchfiles_installed h\<close> by (simp add: watch_reload_unfold)
  next
    case False
    have u: "watch_reload h p c = try_finally ?r (invoke (faults h) (Close 0))"
      using False True by (simp add: watch_reload_unfold)
    from watch_try_ends [of "faults h" 0 "schedule h" ?st]
    show ?thesis unfolding u
      by (cases ?r) (auto simp: try_finally_close)
  qed
qed

lemma watch_reload_no_faults:
  assumes "watchfiles_installed h" and "faults h = []"
  shows "watch_reload h p c =
     (if stops (schedule h) then Returned else NeverReturns,
      \<lparr>stop_event = stops (schedule h),
       trace = [CreateWorker c 0, SetOnStop 0, CreateTask 0]
                 @ concat (map (cycle_calls 0) (accepted (schedule h)))
                 @ (if stops (schedule h) then [Close 0] else []),
       on_stop = [0]\<rparr>)"
  using assms
  by (simp add: watch_reload_unfold watch_try_unfold watch_loop_no_faults try_finally_close initial_def)

lemma watch_reload_returned:
  assumes "watchfiles_installed h" and "0 \<notin> set (faults h)"
  shows "\<forall>i. Suc (Suc i) < length (trace (snd (watch_reload h p c))) \<longrightarrow> i \<notin> set (faults h)"
proof -
  let ?st = "(initial :: 'a controller)\<lparr>trace := [CreateWorker c 0]\<rparr>"
  have "\<forall>i < length (trace ?st). i \<notin> set (faults h)" using assms(2) by simp
  from watch_try_returned [OF this, of 0 "schedule h"] show ?thesis
    using assms by (auto simp: watch_reload_unfold try_finally_close_fields)
qed



lemma stops_batches: "stops (map Changes bs @ Signal s # rest) = (s \<noteq> SIGUSR1 \<or> stops rest)"
  by (induction bs) simp_all

lemma accepted_batches:
  "accepted (map Changes bs @ Signal s # rest) = bs @ (if s \<noteq> SIGUSR1 then [] else accepted rest)"
  by (induction bs) simp_all

lemma constructed_append: "constructed (xs @ ys) = constructed xs @ constructed ys"
  by (induction xs rule: constructed.induct) simp_all

lemma constructed_cycles: "constructed (concat (map (cycle_calls w) bs)) = []"
  by (induction bs) (simp_all add: cycle_calls_def)

lemma count_cycles:
  "count_list (concat (map (cycle_calls w) bs)) (Close w) = length bs"
  "count_list (concat (map (cycle_calls w) bs)) (CreateTask w) = length bs"
  by (induction bs) (simp_all add: cycle_calls_def)

lemma demo_run:
  "watch_reload demo_host p c =
     (Returned,
      \<lparr>stop_event = True,
       trace = [CreateWorker c 0, SetOnStop 0, CreateTask 0, AwatchNext [''a.py''], Print,
                HandleSig 0 SIGUSR1, Close 0, CreateTask 0, Close 0],
       on_stop = [0]\<rparr>)"
  by (simp add: watch_reload_no_faults demo_host_def cycle_calls_def)

text \<open>A try block that returns made only calls that returned.\<close>

lemma watch_try_all_returned:
  fixes st :: "'c controller"
  assumes "\<forall>i < length (trace st). i \<notin> set F"
    and "fst (watch_try F w env st) = Returned"
  shows "\<forall>i < length (trace (snd (watch_try F w env st))). i \<notin> set F"
proof -
  have "fst (watch_try F w env st) = Returned \<longrightarrow>
        (\<forall>i < length (trace (snd (watch_try F w env st))). i \<notin> set F)"
  proof (rule watch_try_rule [where P = "\<lambda>st :: 'c controller. \<forall>i < length (trace st). i \<notin> set F"
        and Q = "\<lambda>out st. out = Returned \<longrightarrow> (\<forall>i < length (trace st). i \<notin> set F)"], goal_cases)
    case 3
    then show ?case using assms(1) by (auto simp: less_Suc_eq)
  next
    case (4 st s)
    then show ?case by (simp add: deliver_fields)
  next
    case (5 st b out st')
    from cycle_returned [OF 5(1), of b w] show ?case unfolding 5(3) by simp
  qed simp_all
  then show ?thesis using assms(2) by simp
qed

text \<open>
  Runs scheduled against closes, in the try block: one more run than closes while the loop
  goes on, and at most that when a call raised.
\<close>

lemma watch_try_counts:
  fixes st :: "'c controller"
  assumes "count_list (trace st) (CreateTask w) = count_list (trace st) (Close w)"
  shows "(fst (watch_try F w env st) = Returned \<or> fst (watch_try F w env st) = NeverReturns \<longrightarrow>
            count_list (trace (snd (watch_try F w env st))) (CreateTask w)
              = count_list (trace (snd (watch_try F w env st))) (Close w) + 1)
       \<and> count_list (trace (snd (watch_try F w env st))) (Close w)
            \<le> count_list (trace (snd (watch_try F w env st))) (CreateTask w)
       \<and> count_list (trace (snd (watch_try F w env st))) (CreateTask w)
            \<le> count_list (trace (snd (watch_try F w env st))) (Close w) + 1"
proof (rule watch_try_rule [where
      P = "\<lambda>st :: 'c controller. count_list (trace st) (CreateTask w) = count_list (trace st) (Close w) + 1"
      and Q = "\<lambda>out st. (out = Returned \<or> out = NeverReturns \<longrightarrow>
                   count_list (trace st) (CreateTask w) = count_list (trace st) (Close w) + 1)
                 \<and> count_list (trace st) (Close w) \<le> count_list (trace st) (CreateTask w)
                 \<and> count_list (trace st) (CreateTask w) \<le> count_list (trace st) (Close w) + 1"],
    goal_cases)
  case 1
  then show ?case using assms by simp
next
  case 2
  then show ?case using assms by simp
next
  case 3
  then show ?case using assms by simp
next
  case (4 st s)
  then show ?case by (simp add: deliver_fields)
next
  case (5 st b out st')
  from cycle_trace [OF 5(3)] obtain k where k: "0 < k" "k \<le> 5"
    "trace st' = trace st @ take k (cycle_calls w b)" "out = Returned \<longrightarrow> k = 5"
    by (metis (full_types))
  define ext :: "'c call list" where "ext = take k (cycle_calls w b)"
  have e: "ext = [AwatchNext b] \<or> ext = [AwatchNext b, Print]
      \<or> ext = [AwatchNext b, Print, HandleSig w SIGUSR1]
      \<or> ext = [AwatchNext b, Print, HandleSig w SIGUSR1, Close w]
      \<or> ext = [AwatchNext b, Print, HandleSig w SIGUSR1, Close w, CreateTask w]"
    using cycle_prefix_cases [OF k(1,2), of w b] by (auto simp: ext_def cycle_calls_def)
  have r: "ext = [AwatchNext b, Print, HandleSig w SIGUSR1, Close w, CreateTask w]" if "out = Returned"
    using that k(4) by (simp add: ext_def cycle_calls_def)
  have t: "trace st' = trace st @ ext" by (simp add: k(3) ext_def)
  show ?case
  proof (cases "out = Returned")
    case True
    then show ?thesis using r 5(1) by (simp add: t)
  next
    case False
    have "out \<noteq> NeverReturns" using cycle_trace [OF 5(3)] False by auto
    then show ?thesis using e 5(1) False by (auto simp: t)
  qed
qed simp_all

lemma watch_reload_counts:
  assumes "watchfiles_installed h" and "0 \<notin> set (faults h)"
    and "fst (watch_reload h p c) \<noteq> NeverReturns"
  shows "count_list (trace (snd (watch_reload h p c))) (CreateTask 0)
            \<le> count_list (trace (snd (watch_reload h p c))) (Close 0)"
    and "count_list (trace (snd (watch_reload h p c))) (Close 0)
            \<le> count_list (trace (snd (watch_reload h p c))) (CreateTask 0) + 1"
    and "fst (watch_reload h p c) = Returned \<Longrightarrow>
          count_list (trace (snd (watch_reload h p c))) (Close 0)
            = count_list (trace (snd (watch_reload h p c))) (CreateTask 0)"
proof -
  let ?st = "(initial :: 'a controller)\<lparr>trace := [CreateWorker c 0]\<rparr>"
  let ?r = "watch_try (faults h) 0 (schedule h) ?st"
  have u: "watch_reload h p c = try_finally ?r (invoke (faults h) (Close 0))"
    using assms(1,2) by (simp add: watch_reload_unfold)
  have n: "fst ?r \<noteq> NeverReturns" using assms(3) by (simp add: u try_finally_close_fields)
  have t: "trace (snd (watch_reload h p c)) = trace (snd ?r) @ [Close 0]"
    using n by (simp add: u try_finally_close_fields)
  have "count_list (trace ?st) (CreateTask 0) = count_list (trace ?st) (Close 0)" by simp
  note b = watch_try_counts [OF this, of "faults h" "schedule h"]
  show "count_list (trace (snd (watch_reload h p c))) (CreateTask 0)
            \<le> count_list (trace (snd (watch_reload h p c))) (Close 0)"
    using b by (simp add: t)
  show "count_list (trace (snd (watch_reload h p c))) (Close 0)
            \<le> count_list (trace (snd (watch_reload h p c))) (CreateTask 0) + 1"
    using b by (simp add: t)
  show "count_list (trace (snd (watch_reload h p c))) (Close 0)
            = count_list (trace (snd (watch_reload h p c))) (CreateTask 0)"
    if "fst (watch_reload h p c) = Returned"
  proof -
    have "fst ?r = Returned" using that by (simp add: u try_finally_close_fields(4))
    then show ?thesis using b by (simp add: t)
  qed
qed

lemma watch_reload_all_returned:
  assumes "watchfiles_installed h" and "0 \<notin> set (faults h)"
    and "fst (watch_reload h p c) = Returned"
  shows "\<forall>i < length (trace (snd (watch_reload h p c))). i \<notin> set (faults h)"
proof -
  let ?st = "(initial :: 'a controller)\<lparr>trace := [CreateWorker c 0]\<rparr>"
  let ?r = "watch_try (faults h) 0 (schedule h) ?st"
  have u: "watch_reload h p c = try_finally ?r (invoke (faults h) (Close 0))"
    using assms(1,2) by (simp add: watch_reload_unfold)
  have r: "fst ?r = Returned" using assms(3) by (simp add: u try_finally_close_fields(4))
  have "\<forall>i < length (trace ?st). i \<notin> set (faults h)" using assms(2) by simp
  from watch_try_all_returned [OF this r]
  have b: "\<forall>i < length (trace (snd ?r)). i \<notin> set (faults h)" .
  have l: "length (trace (snd ?r)) \<notin> set (faults h)"
    using assms(3) r unfolding u by (cases ?r) (auto simp: try_finally_close split: if_splits)
  have t: "trace (snd (watch_reload h p c)) = trace (snd ?r) @ [Close 0]"
    using r by (simp add: u try_finally_close_fields)
  show ?thesis using b l by (auto simp: t less_Suc_eq)
qed

lemma watch_reload_finally:
  assumes "watchfiles_installed h" and "0 \<notin> set (faults h)"
    and "fst (watch_reload h p c) \<noteq> NeverReturns"
  shows "trace (snd (watch_reload h p c)) =
           trace (snd (watch_try (faults h) 0 (schedule h) (initial\<lparr>trace := [CreateWorker c 0]\<rparr>)))
             @ [Close 0]"
    and "fst (watch_reload h p c) =
           (if length (trace (snd (watch_reload h p c))) - 1 \<in> set (faults h)
            then Uncaught (CallRaised (Close 0))
            else fst (watch_try (faults h) 0 (schedule h) (initial\<lparr>trace := [CreateWorker c 0]\<rparr>)))"
proof -
  let ?st = "(initial :: 'a controller)\<lparr>trace := [CreateWorker c 0]\<rparr>"
  let ?r = "watch_try (faults h) 0 (schedule h) ?st"
  have u: "watch_reload h p c = try_finally ?r (invoke (faults h) (Close 0))"
    using assms(1,2) by (simp add: watch_reload_unfold)
  have n: "fst ?r \<noteq> NeverReturns" using assms(3) by (simp add: u try_finally_close_fields)
  show t: "trace (snd (watch_reload h p c)) = trace (snd ?r) @ [Close 0]"
    using n by (simp add: u try_finally_close_fields)
  show "fst (watch_reload h p c) =
           (if length (trace (snd (watch_reload h p c))) - 1 \<in> set (faults h)
            then Uncaught (CallRaised (Close 0)) else fst ?r)"
    unfolding t using n unfolding u by (cases ?r) (simp add: try_finally_close)
qed

lemma demo_close_raises:
  "watch_reload (demo_host\<lparr>faults := [6]\<rparr>) p c =
     (Uncaught (CallRaised (Close 0)),
      \<lparr>stop_event = False,
       trace = [CreateWorker c 0, SetOnStop 0, CreateTask 0, AwatchNext [''a.py''], Print,
                HandleSig 0 SIGUSR1, Close 0, Close 0],
       on_stop = [0]\<rparr>)"
  by (simp add: watch_reload_unfold watch_try_unfold demo_host_def initial_def invoke_def
      andthen_def reload_cycle_def deliver_reload try_finally_close)

subsection \<open>The claims about the controller\<close>

text \<open>
  Claim C1, as amended. The claim reads: after \<open>N\<close> batches and the stop event the controller
  has constructed and closed \<open>N + 1\<close> distinct workers, a fresh one per batch, and no worker
  is run again after it was closed. The source constructs one worker, before the loop, and
  never rebinds the variable \<^verbatim>\<open>worker\<close>. What holds: when no call raises and \<open>N\<close> batches
  arrive before the first signal other than \<^verbatim>\<open>SIGUSR1\<close>, the controller returns, having
  constructed exactly one worker (worker 0), and on each batch it signals, closes and schedules
  again that same worker: worker 0 is closed \<open>N + 1\<close> times and its run is scheduled \<open>N + 1\<close>
  times.
\<close>

theorem reload_reuses_worker:
  assumes "watchfiles_installed h" and "faults h = []"
    and "schedule h = map Changes bs @ Signal s # rest" and "s \<noteq> SIGUSR1"
  shows "fst (watch_reload h p c) = Returned
       \<and> trace (snd (watch_reload h p c)) =
           [CreateWorker c 0, SetOnStop 0, CreateTask 0] @ concat (map (cycle_calls 0) bs) @ [Close 0]
       \<and> constructed (trace (snd (watch_reload h p c))) = [0]
       \<and> count_list (trace (snd (watch_reload h p c))) (Close 0) = length bs + 1
       \<and> count_list (trace (snd (watch_reload h p c))) (CreateTask 0) = length bs + 1"
  using assms
  by (simp add: watch_reload_no_faults stops_batches accepted_batches constructed_append
      constructed_cycles count_cycles)

theorem reload_reuses_worker_witness:
  "fst (watch_reload demo_host ''src'' ()) = Returned
   \<and> trace (snd (watch_reload demo_host ''src'' ())) =
       [CreateWorker () 0, SetOnStop 0, CreateTask 0, AwatchNext [''a.py''], Print,
        HandleSig 0 SIGUSR1, Close 0, CreateTask 0, Close 0]
   \<and> count_list (trace (snd (watch_reload demo_host ''src'' ()))) (Close 0) = 2"
proof -
  have h: "watchfiles_installed demo_host" "faults demo_host = []"
    "schedule demo_host = map Changes [[''a.py'']] @ Signal SIGINT # []" "SIGINT \<noteq> SIGUSR1"
    by (simp_all add: demo_host_def)
  show ?thesis
    using reload_reuses_worker [OF h, of "''src''" "()"] by (simp add: cycle_calls_def)
qed

text \<open>
  Claim C1 as stated fails for one batch followed by \<^verbatim>\<open>SIGINT\<close>: one worker is
  constructed, not two, and it is run again after its close.
\<close>

theorem fresh_worker_per_batch_counterexample:
  "fst (watch_reload demo_host ''src'' ()) = Returned
   \<and> schedule demo_host = [Changes [''a.py''], Signal SIGINT]
   \<and> length (constructed (trace (snd (watch_reload demo_host ''src'' ())))) = 1
   \<and> length (constructed (trace (snd (watch_reload demo_host ''src'' ())))) \<noteq> 1 + 1
   \<and> \<not> never_rerun [] (trace (snd (watch_reload demo_host ''src'' ())))"
  by (simp add: demo_run) (simp add: demo_host_def)

text \<open>
  Claim C4, as amended. The claim reads: whenever the controller returns, normally or through
  an error raised after the worker was constructed, the live worker has been closed exactly
  once, and the old worker is fully closed before a new run is scheduled. The worker is one
  object, closed once for every run that was scheduled, so not once in all. What holds, for
  every environment and whichever later calls raise, whenever the controller returns or raises
  after \<^verbatim>\<open>create_worker\<close> returned:
  \<^item> the \<^verbatim>\<open>finally\<close> clause makes exactly one call after the \<^verbatim>\<open>try\<close> block, the close of
    the worker, which is the last call of the controller; when that close returns the
    controller ends as the block did, and when it raises that exception leaves the controller;
  \<^item> on a normal return every call returned and the closes of the worker are as many as its
    scheduled runs: each run has been closed exactly once;
  \<^item> on every exit the closes called are as many as the runs scheduled, or one more (the close
    of a reload raised, or no run was scheduled yet);
  \<^item> every call that schedules a run directly follows either the installation of the stop hook
    (the first run) or a close of the same worker that returned (every later run).
\<close>

theorem close_on_every_exit:
  assumes "watchfiles_installed h" and "0 \<notin> set (faults h)"
    and "fst (watch_reload h p c) \<noteq> NeverReturns"
  shows "trace (snd (watch_reload h p c)) =
           trace (snd (watch_try (faults h) 0 (schedule h) (initial\<lparr>trace := [CreateWorker c 0]\<rparr>)))
             @ [Close 0]
       \<and> last (trace (snd (watch_reload h p c))) = Close 0
       \<and> fst (watch_reload h p c) =
           (if length (trace (snd (watch_reload h p c))) - 1 \<in> set (faults h)
            then Uncaught (CallRaised (Close 0))
            else fst (watch_try (faults h) 0 (schedule h) (initial\<lparr>trace := [CreateWorker c 0]\<rparr>)))
       \<and> (fst (watch_reload h p c) = Returned \<longrightarrow>
            (\<forall>i < length (trace (snd (watch_reload h p c))). i \<notin> set (faults h))
            \<and> count_list (trace (snd (watch_reload h p c))) (Close 0)
                = count_list (trace (snd (watch_reload h p c))) (CreateTask 0))
       \<and> count_list (trace (snd (watch_reload h p c))) (CreateTask 0)
            \<le> count_list (trace (snd (watch_reload h p c))) (Close 0)
       \<and> count_list (trace (snd (watch_reload h p c))) (Close 0)
            \<le> count_list (trace (snd (watch_reload h p c))) (CreateTask 0) + 1
       \<and> (\<forall>i w. Suc i < length (trace (snd (watch_reload h p c)))
              \<and> trace (snd (watch_reload h p c)) ! Suc i = CreateTask w \<longrightarrow>
            (trace (snd (watch_reload h p c)) ! i = SetOnStop w
               \<or> trace (snd (watch_reload h p c)) ! i = Close w)
            \<and> i \<notin> set (faults h))"
proof -
  let ?tr = "trace (snd (watch_reload h p c))"
  have l: "?tr \<noteq> []" "last ?tr = Close 0"
    using watch_reload_last [OF assms] by simp_all
  have g: "(?tr ! i = SetOnStop w \<or> ?tr ! i = Close w) \<and> i \<notin> set (faults h)"
    if "Suc i < length ?tr" "?tr ! Suc i = CreateTask w" for i w
  proof -
    have "guarded (?tr ! i) (?tr ! Suc i)"
      using successively_nth [OF watch_reload_guarded that(1)] .
    then have 1: "?tr ! i = SetOnStop w \<or> ?tr ! i = Close w"
      using that(2) by (simp add: guarded_def)
    have "Suc i \<noteq> length ?tr - 1"
      using l that(2) by (auto simp: last_conv_nth)
    then have "Suc (Suc i) < length ?tr" using that(1) by arith
    then have "i \<notin> set (faults h)"
      using watch_reload_returned [OF assms(1,2), of p c] by blast
    then show ?thesis using 1 by simp
  qed
  have r: "(\<forall>i < length ?tr. i \<notin> set (faults h))
            \<and> count_list ?tr (Close 0) = count_list ?tr (CreateTask 0)"
    if "fst (watch_reload h p c) = Returned"
    using watch_reload_all_returned [OF assms(1,2) that] watch_reload_counts(3) [OF assms that]
    by simp
  show ?thesis
    using watch_reload_finally [OF assms] l(2) r watch_reload_counts(1,2) [OF assms] g
    by (intro conjI) blast+
qed

theorem close_on_every_exit_witness:
  "trace (snd (watch_reload (demo_host\<lparr>faults := [6]\<rparr>) ''src'' ())) =
     [CreateWorker () 0, SetOnStop 0, CreateTask 0, AwatchNext [''a.py''], Print,
      HandleSig 0 SIGUSR1, Close 0, Close 0]
   \<and> fst (watch_reload (demo_host\<lparr>faults := [6]\<rparr>) ''src'' ()) = Uncaught (CallRaised (Close 0))
   \<and> last (trace (snd (watch_reload (demo_host\<lparr>faults := [6]\<rparr>) ''src'' ()))) = Close 0
   \<and> count_list (trace (snd (watch_reload (demo_host\<lparr>faults := [6]\<rparr>) ''src'' ()))) (Close 0)
       \<le> count_list (trace (snd (watch_reload (demo_host\<lparr>faults := [6]\<rparr>) ''src'' ()))) (CreateTask 0) + 1
   \<and> count_list (trace (snd (watch_reload demo_host ''src'' ()))) (Close 0)
       = count_list (trace (snd (watch_reload demo_host ''src'' ()))) (CreateTask 0)"
proof -
  have h: "watchfiles_installed (demo_host\<lparr>faults := [6]\<rparr>)"
    "0 \<notin> set (faults (demo_host\<lparr>faults := [6]\<rparr>))"
    "fst (watch_reload (demo_host\<lparr>faults := [6]\<rparr>) ''src'' ()) \<noteq> NeverReturns"
    by (simp_all add: demo_close_raises) (simp add: demo_host_def)
  have k: "watchfiles_installed demo_host" "0 \<notin> set (faults demo_host)"
    "fst (watch_reload demo_host ''src'' ()) \<noteq> NeverReturns"
    "fst (watch_reload demo_host ''src'' ()) = Returned"
    by (simp_all add: demo_run) (simp_all add: demo_host_def)
  show ?thesis
    using close_on_every_exit [OF h] close_on_every_exit [OF k(1,2,3)]
    by (simp add: demo_close_raises demo_run)
qed

text \<open>
  Claim C4 as stated fails for one batch followed by \<^verbatim>\<open>SIGINT\<close>: the controller returns
  normally and its only worker has been closed twice.
\<close>

theorem closed_exactly_once_counterexample:
  "fst (watch_reload demo_host ''src'' ()) = Returned
   \<and> constructed (trace (snd (watch_reload demo_host ''src'' ()))) = [0]
   \<and> count_list (trace (snd (watch_reload demo_host ''src'' ()))) (Close 0) = 2
   \<and> count_list (trace (snd (watch_reload demo_host ''src'' ()))) (Close 0) \<noteq> 1"
  by (simp add: demo_run)

text \<open>
  Claim C5. After every prefix of the calls of a watch-mode run, whatever the environment does
  and whichever calls raise, at most one run of a worker is in progress. Without faults the
  calls are the three initial ones, then one complete reload (batch, notice, signal, close, new
  run) for each batch that arrived before the first signal other than \<^verbatim>\<open>SIGUSR1\<close>, in the
  order of arrival and one after the other, then the final close when the controller returns.
\<close>

theorem one_run_at_a_time:
  "(\<forall>n. length (running (take n (trace (snd (watch_reload h p c))))) \<le> 1)
   \<and> (watchfiles_installed h \<and> faults h = [] \<longrightarrow>
        trace (snd (watch_reload h p c)) =
          [CreateWorker c 0, SetOnStop 0, CreateTask 0]
            @ concat (map (cycle_calls 0) (accepted (schedule h)))
            @ (if stops (schedule h) then [Close 0] else []))"
  using watch_reload_prefixes [of h p c] by (simp add: watch_reload_no_faults)

theorem one_run_at_a_time_witness:
  "length (running (take 3 (trace (snd (watch_reload demo_host ''src'' ()))))) \<le> 1
   \<and> running (take 7 (trace (snd (watch_reload demo_host ''src'' ())))) = []
   \<and> running (take 8 (trace (snd (watch_reload demo_host ''src'' ())))) = [0]
   \<and> trace (snd (watch_reload demo_host ''src'' ())) =
        [CreateWorker () 0, SetOnStop 0, CreateTask 0] @ cycle_calls 0 [''a.py''] @ [Close 0]"
  using one_run_at_a_time [of demo_host "''src''" "()"]
  by (simp add: demo_host_def running_def cycle_calls_def)




section \<open>Properties of the command\<close>

lemma start_loop_returns:
  "(\<forall>j<n. process_start L M (i + j) t = None) \<Longrightarrow> start_loop L M t i n = (n, None)"
proof (induction n arbitrary: i)
  case 0
  then show ?case by simp
next
  case (Suc n)
  have "process_start L M i t = None" using Suc.prems [rule_format, of 0] by simp
  moreover have "\<forall>j<n. process_start L M (Suc i + j) t = None"
    using Suc.prems by (metis Suc_less_eq add_Suc add_Suc_right)
  ultimately show ?case using Suc.IH [of "Suc i"] by simp
qed

lemma starts_return_iff: "starts_return L M t n = (\<forall>i<n. process_start L M i t = None)"
  by (auto simp: starts_return_def list_all_iff)

lemma start_processes_return:
  assumes "starts_return L M t (nat (n - 1))"
  shows "start_processes L M n t = (nat (n - 1), None)"
  using assms start_loop_returns [of "nat (n - 1)" L M 0 t]
  by (simp add: start_processes_def starts_return_iff)


lemma invoked_launch:
  "invoked (replicate m (ProcessStart t) @ es) = invoked es"
  by (induction m) simp_all

lemma launch_returns:
  assumes "starts_return L M t (nat (n - 1))"
  shows "launch L M n prior t =
          \<lparr>effects = prior @ replicate (nat (n - 1)) (ProcessStart t) @ [Invoke t],
           outcome = fst (run_target L (caller M) t),
           controller_state = snd (run_target L (caller M) t),
           processes = map (\<lambda>i. run_target L (child M i) t) [0..<nat (n - 1)]\<rparr>"
  by (simp add: launch_def start_processes_return [OF assms])

lemma cli_run:
  assumes "import_string L (worker_settings a) = Some ws"
    and "load_log_config L a = Inr lc"
    and "dict_config L lc = None"
    and "\<not> check a"
  shows "cli L M a = launch L M (workers a) [SysPathAppend, DictConfig lc] (selected a ws)"
  using assms by (simp add: cli_def selected_def Let_def split: option.splits)

lemma run_target_watch:
  "run_target L h (AsyncioRun (WatchReload p ws)) =
     (fst (watch_reload h p ws), Some (snd (watch_reload h p ws)))"
  by (simp add: run_target_def asyncio_run_def)

lemma run_target_plain: "run_target L h (RunWorker ws k) = (run_worker L ws k, None)"
  by (simp add: run_target_def)




text \<open>
  The hypothesis on the starts is needed. In watch mode the argument of every start is the
  coroutine object, which cannot be pickled: under a start method that pickles, the first
  start raises and \<^verbatim>\<open>cli\<close> ends there, having started and invoked nothing.
\<close>

lemma watch_mode_start_raises:
  assumes "start_method M \<noteq> Fork" and "1 < workers a" and "\<not> check a"
    and "truthy (watch a) = Some p"
    and "import_string L (worker_settings a) = Some ws"
    and "load_log_config L a = Inr lc"
    and "dict_config L lc = None"
  shows "cli L M a =
          \<lparr>effects = [SysPathAppend, DictConfig lc], outcome = Uncaught TypeError,
           controller_state = None, processes = []\<rparr>"
proof -
  obtain n where n: "nat (workers a - 1) = Suc n"
    using assms(2) by (cases "nat (workers a - 1)") auto
  have "start_processes L M (workers a) (AsyncioRun (WatchReload p ws)) = (0, Some TypeError)"
    using assms(1,2) by (simp add: start_processes_def n process_start_def can_pickle_def)
  then show ?thesis
    using assms by (simp add: cli_def launch_def)
qed

text \<open>
  At \<open>k = 2\<close> in watch mode under the start method \<^verbatim>\<open>spawn\<close>, the start of line 60 raises
  \<^verbatim>\<open>TypeError\<close>: no process is started and nothing is invoked. The same command line under
  \<^verbatim>\<open>fork\<close>, and the plain-run command line under \<^verbatim>\<open>spawn\<close> (whose start, line 65, passes
  the function and its arguments), give the two invocations.
\<close>

lemma watch_fan_out_raises_under_spawn:
  "cli demo_library (demo_machine\<lparr>start_method := Spawn\<rparr>)
       (demo_args\<lparr>watch := Some ''src'', workers := 2\<rparr>) =
     \<lparr>effects = [SysPathAppend, DictConfig ''standard''], outcome = Uncaught TypeError,
      controller_state = None, processes = []\<rparr>
   \<and> spawned (effects (cli demo_library (demo_machine\<lparr>start_method := Spawn\<rparr>)
       (demo_args\<lparr>watch := Some ''src'', workers := 2\<rparr>))) = []
   \<and> invoked (effects (cli demo_library (demo_machine\<lparr>start_method := Spawn\<rparr>)
       (demo_args\<lparr>watch := Some ''src'', workers := 2\<rparr>))) = []
   \<and> spawned (effects (cli demo_library demo_machine
       (demo_args\<lparr>watch := Some ''src'', workers := 2\<rparr>)))
       = [AsyncioRun (WatchReload ''src'' ''WorkerSettings'')]
   \<and> invoked (effects (cli demo_library demo_machine
       (demo_args\<lparr>watch := Some ''src'', workers := 2\<rparr>)))
       = [AsyncioRun (WatchReload ''src'' ''WorkerSettings'')]
   \<and> spawned (effects (cli demo_library (demo_machine\<lparr>start_method := Spawn\<rparr>)
       (demo_args\<lparr>workers := 2\<rparr>))) = [RunWorker ''WorkerSettings'' []]
   \<and> invoked (effects (cli demo_library (demo_machine\<lparr>start_method := Spawn\<rparr>)
       (demo_args\<lparr>workers := 2\<rparr>))) = [RunWorker ''WorkerSettings'' []]"
proof -
  have a: "cli demo_library (demo_machine\<lparr>start_method := Spawn\<rparr>)
       (demo_args\<lparr>watch := Some ''src'', workers := 2\<rparr>) =
     \<lparr>effects = [SysPathAppend, DictConfig ''standard''], outcome = Uncaught TypeError,
      controller_state = None, processes = []\<rparr>"
    by (rule watch_mode_start_raises [where p = "''src''" and ws = "''WorkerSettings''"])
       (simp_all add: demo_machine_def demo_args_def demo_library_def load_log_config_def truthy_def)
  have b: "effects (cli demo_library demo_machine (demo_args\<lparr>watch := Some ''src'', workers := 2\<rparr>))
      = [SysPathAppend, DictConfig ''standard'', ProcessStart (AsyncioRun (WatchReload ''src'' ''WorkerSettings'')),
         Invoke (AsyncioRun (WatchReload ''src'' ''WorkerSettings''))]"
    by (simp add: cli_def launch_def start_processes_def process_start_def can_pickle_def
        demo_machine_def demo_args_def demo_library_def load_log_config_def truthy_def
        numeral_2_eq_2 Let_def)
  have c: "effects (cli demo_library (demo_machine\<lparr>start_method := Spawn\<rparr>) (demo_args\<lparr>workers := 2\<rparr>))
      = [SysPathAppend, DictConfig ''standard'', ProcessStart (RunWorker ''WorkerSettings'' []),
         Invoke (RunWorker ''WorkerSettings'' [])]"
    by (simp add: cli_def launch_def start_processes_def process_start_def can_pickle_def
        demo_machine_def demo_args_def demo_library_def load_log_config_def truthy_def
        numeral_2_eq_2 Let_def)
  show ?thesis by (simp add: a b c)
qed

text \<open>
  Claim C10. For every \<^verbatim>\<open>workers\<close> value of at most 1, zero and negative values included
  (the source does not reject them), when the configuration resolves and logging is configured
  and the health check is not asked for, \<^verbatim>\<open>cli\<close> starts no process and still calls the
  selected target exactly once in the calling process: in watch mode the outcome and the final
  controller state of \<^verbatim>\<open>cli\<close> are those of \<^verbatim>\<open>watch_reload\<close> on the calling host, in plain
  mode the outcome is that of \<^verbatim>\<open>run_worker\<close>.
\<close>

theorem nonpositive_workers_run_once:
  assumes "workers a \<le> 1" and "\<not> check a"
    and "import_string L (worker_settings a) = Some ws"
    and "load_log_config L a = Inr lc"
    and "dict_config L lc = None"
  shows "spawned (effects (cli L M a)) = []
       \<and> invoked (effects (cli L M a)) = [selected a ws]
       \<and> effects (cli L M a) = [SysPathAppend, DictConfig lc, Invoke (selected a ws)]
       \<and> processes (cli L M a) = []
       \<and> (\<forall>p. truthy (watch a) = Some p \<longrightarrow>
            selected a ws = AsyncioRun (WatchReload p ws)
            \<and> outcome (cli L M a) = fst (watch_reload (caller M) p ws)
            \<and> controller_state (cli L M a) = Some (snd (watch_reload (caller M) p ws)))
       \<and> (truthy (watch a) = None \<longrightarrow>
            selected a ws = RunWorker ws (case burst a of None \<Rightarrow> [] | Some b \<Rightarrow> [(''burst'', b)])
            \<and> outcome (cli L M a) =
                 run_worker L ws (case burst a of None \<Rightarrow> [] | Some b \<Rightarrow> [(''burst'', b)])
            \<and> controller_state (cli L M a) = None)"
proof -
  have c: "cli L M a =
          \<lparr>effects = [SysPathAppend, DictConfig lc, Invoke (selected a ws)],
           outcome = fst (run_target L (caller M) (selected a ws)),
           controller_state = snd (run_target L (caller M) (selected a ws)),
           processes = []\<rparr>"
    using cli_run [OF assms(3,4,5,2)] assms(1) by (simp add: launch_def start_processes_def)
  show ?thesis unfolding c
    by (auto simp: selected_def run_target_watch run_target_plain)
qed

theorem nonpositive_workers_run_once_witness:
  "effects (cli demo_library demo_machine (demo_args\<lparr>workers := - 2\<rparr>))
     = [SysPathAppend, DictConfig ''standard'', Invoke (RunWorker ''WorkerSettings'' [])]
   \<and> effects (cli demo_library demo_machine (demo_args\<lparr>workers := 0, watch := Some ''src''\<rparr>))
     = [SysPathAppend, DictConfig ''standard'', Invoke (AsyncioRun (WatchReload ''src'' ''WorkerSettings''))]
   \<and> outcome (cli demo_library demo_machine (demo_args\<lparr>workers := 0, watch := Some ''src''\<rparr>))
     = Returned
   \<and> controller_state (cli demo_library demo_machine (demo_args\<lparr>workers := 0, watch := Some ''src''\<rparr>))
     = Some \<lparr>stop_event = True,
             trace = [CreateWorker ''WorkerSettings'' 0, SetOnStop 0, CreateTask 0,
                      AwatchNext [''a.py''], Print, HandleSig 0 SIGUSR1, Close 0, CreateTask 0, Close 0],
             on_stop = [0]\<rparr>"
proof -
  have h1: "workers (demo_args\<lparr>workers := - 2\<rparr>) \<le> 1" "\<not> check (demo_args\<lparr>workers := - 2\<rparr>)"
    "import_string demo_library (worker_settings (demo_args\<lparr>workers := - 2\<rparr>)) = Some ''WorkerSettings''"
    "load_log_config demo_library (demo_args\<lparr>workers := - 2\<rparr>) = Inr ''standard''"
    "dict_config demo_library ''standard'' = None"
    by (simp_all add: demo_args_def demo_library_def load_log_config_def truthy_def)
  have h2: "workers (demo_args\<lparr>workers := 0, watch := Some ''src''\<rparr>) \<le> 1"
    "\<not> check (demo_args\<lparr>workers := 0, watch := Some ''src''\<rparr>)"
    "import_string demo_library (worker_settings (demo_args\<lparr>workers := 0, watch := Some ''src''\<rparr>))
       = Some ''WorkerSettings''"
    "load_log_config demo_library (demo_args\<lparr>workers := 0, watch := Some ''src''\<rparr>) = Inr ''standard''"
    by (simp_all add: demo_args_def demo_library_def load_log_config_def truthy_def)
  have t: "truthy (watch (demo_args\<lparr>workers := 0, watch := Some ''src''\<rparr>)) = Some ''src''"
    "selected (demo_args\<lparr>workers := - 2\<rparr>) ''WorkerSettings'' = RunWorker ''WorkerSettings'' []"
    "caller demo_machine = demo_host"
    by (simp_all add: demo_args_def truthy_def selected_def demo_machine_def)
  show ?thesis
    using nonpositive_workers_run_once [OF h1, of demo_machine]
      nonpositive_workers_run_once [OF h2 h1(5), of demo_machine] t
    by (simp add: demo_run)
qed

text \<open>
  Claim C6, as amended. The claim reads: with \<^verbatim>\<open>--check\<close> the health check is invoked exactly
  once, no worker is constructed, no process is spawned whatever the other options, and the
  process exit code equals the integer that the check returns. The exit code of a process
  holds eight bits. What holds: with \<^verbatim>\<open>--check\<close>, whatever the other options, \<^verbatim>\<open>cli\<close>
  starts no process, calls no entry point (neither \<^verbatim>\<open>run_worker\<close> nor \<^verbatim>\<open>watch_reload\<close>, the
  only callers of \<^verbatim>\<open>create_worker\<close>) and runs no controller, and calls the health check at
  most once; when the configuration resolves, logging is configured and the check returns
  \<open>n\<close>, the check is called exactly once, \<^verbatim>\<open>cli\<close> ends with \<^verbatim>\<open>SystemExit(n)\<close>, and the exit
  code is \<open>n\<close> reduced modulo 256 (255 when \<open>n\<close> does not fit a C \<^verbatim>\<open>long\<close>): \<open>n\<close> itself for
  every status from 0 to 255.
\<close>

theorem check_short_circuits:
  assumes "check a"
  shows "spawned (effects (cli L M a)) = []
       \<and> invoked (effects (cli L M a)) = []
       \<and> controller_state (cli L M a) = None
       \<and> processes (cli L M a) = []
       \<and> length (health_checks (effects (cli L M a))) \<le> 1
       \<and> (\<forall>ws lc n. import_string L (worker_settings a) = Some ws \<and> load_log_config L a = Inr lc
              \<and> dict_config L lc = None \<and> check_health L ws = Inr n \<longrightarrow>
            health_checks (effects (cli L M a)) = [ws]
            \<and> effects (cli L M a) = [SysPathAppend, DictConfig lc, CheckHealth ws]
            \<and> outcome (cli L M a) = SystemExit n
            \<and> exit_code (outcome (cli L M a)) =
                 Some (if - (2 ^ 63) \<le> n \<and> n < 2 ^ 63 then n mod 256 else 255)
            \<and> (0 \<le> n \<and> n < 256 \<longrightarrow> exit_code (outcome (cli L M a)) = Some n))"
proof -
  have u: "spawned (effects (cli L M a)) = [] \<and> invoked (effects (cli L M a)) = []
       \<and> controller_state (cli L M a) = None \<and> processes (cli L M a) = []
       \<and> length (health_checks (effects (cli L M a))) \<le> 1"
    using assms by (simp add: cli_def split: option.splits sum.splits)
  have r: "health_checks (effects (cli L M a)) = [ws]
            \<and> effects (cli L M a) = [SysPathAppend, DictConfig lc, CheckHealth ws]
            \<and> outcome (cli L M a) = SystemExit n
            \<and> exit_code (outcome (cli L M a)) =
                 Some (if - (2 ^ 63) \<le> n \<and> n < 2 ^ 63 then n mod 256 else 255)
            \<and> (0 \<le> n \<and> n < 256 \<longrightarrow> exit_code (outcome (cli L M a)) = Some n)"
    if "import_string L (worker_settings a) = Some ws" "load_log_config L a = Inr lc"
      "dict_config L lc = None" "check_health L ws = Inr n" for ws lc n
  proof -
    have c: "cli L M a = \<lparr>effects = [SysPathAppend, DictConfig lc, CheckHealth ws],
        outcome = SystemExit n, controller_state = None, processes = []\<rparr>"
      using assms that by (simp add: cli_def)
    show ?thesis unfolding c by (simp add: exit_code_def)
  qed
  show ?thesis using u r by blast
qed

theorem check_short_circuits_witness:
  "effects (cli demo_library demo_machine (demo_args\<lparr>check := True, watch := Some ''src'', workers := 4\<rparr>))
     = [SysPathAppend, DictConfig ''standard'', CheckHealth ''WorkerSettings'']
   \<and> outcome (cli demo_library demo_machine (demo_args\<lparr>check := True, watch := Some ''src'', workers := 4\<rparr>))
     = SystemExit 1
   \<and> exit_code (outcome (cli demo_library demo_machine
        (demo_args\<lparr>check := True, watch := Some ''src'', workers := 4\<rparr>))) = Some 1
   \<and> spawned (effects (cli demo_library demo_machine
        (demo_args\<lparr>check := True, watch := Some ''src'', workers := 4\<rparr>))) = []"
proof -
  let ?a = "demo_args\<lparr>check := True, watch := Some ''src'', workers := 4\<rparr>"
  have r: "import_string demo_library (worker_settings ?a) = Some ''WorkerSettings''"
    "load_log_config demo_library ?a = Inr ''standard''"
    "dict_config demo_library ''standard'' = None"
    "check_health demo_library ''WorkerSettings'' = Inr 1"
    by (simp_all add: demo_library_def demo_args_def load_log_config_def truthy_def)
  have h: "check ?a" by simp
  show ?thesis
    using check_short_circuits [OF h, of demo_library demo_machine] r
    by (simp add: exit_code_def)
qed

text \<open>
  Claim C6 as stated fails for a health check that returns 256: the process exits with code 0.
\<close>

theorem exit_code_status_256_counterexample:
  "check (demo_args\<lparr>check := True\<rparr>)
   \<and> check_health status_256_library ''WorkerSettings'' = Inr 256
   \<and> effects (cli status_256_library demo_machine (demo_args\<lparr>check := True\<rparr>))
       = [SysPathAppend, DictConfig ''standard'', CheckHealth ''WorkerSettings'']
   \<and> outcome (cli status_256_library demo_machine (demo_args\<lparr>check := True\<rparr>)) = SystemExit 256
   \<and> exit_code (outcome (cli status_256_library demo_machine (demo_args\<lparr>check := True\<rparr>))) = Some 0
   \<and> exit_code (outcome (cli status_256_library demo_machine (demo_args\<lparr>check := True\<rparr>))) \<noteq> Some 256"
  by (simp add: cli_def status_256_library_def demo_library_def demo_args_def load_log_config_def
      truthy_def exit_code_def)

text \<open>
  Claim C8. In plain run mode (no \<^verbatim>\<open>--check\<close>, no watch directory), when the configuration
  resolves, logging is configured and every start returns, the worker is run with no keyword
  argument when \<^verbatim>\<open>burst\<close> is unset and with the single keyword argument \<^verbatim>\<open>burst\<close> when it
  is true or false, and the end of that blocking run is the end of the command; with
  \<^verbatim>\<open>workers = 1\<close> no process is started and the one run happens in the calling process.
\<close>

theorem plain_run_burst:
  assumes "\<not> check a" and "truthy (watch a) = None"
    and "import_string L (worker_settings a) = Some ws"
    and "load_log_config L a = Inr lc"
    and "dict_config L lc = None"
    and "starts_return L M (selected a ws) (nat (workers a - 1))"
  shows "(burst a = None \<longrightarrow> invoked (effects (cli L M a)) = [RunWorker ws []])
       \<and> (\<forall>b. burst a = Some b \<longrightarrow> invoked (effects (cli L M a)) = [RunWorker ws [(''burst'', b)]])
       \<and> outcome (cli L M a) =
            run_worker L ws (case burst a of None \<Rightarrow> [] | Some b \<Rightarrow> [(''burst'', b)])
       \<and> controller_state (cli L M a) = None
       \<and> (workers a = 1 \<longrightarrow>
            spawned (effects (cli L M a)) = []
            \<and> processes (cli L M a) = []
            \<and> effects (cli L M a) = [SysPathAppend, DictConfig lc, Invoke (selected a ws)])"
proof -
  have s: "selected a ws = RunWorker ws (case burst a of None \<Rightarrow> [] | Some b \<Rightarrow> [(''burst'', b)])"
    using assms(2) by (simp add: selected_def)
  have c: "cli L M a =
          \<lparr>effects = [SysPathAppend, DictConfig lc]
                      @ replicate (nat (workers a - 1)) (ProcessStart (selected a ws))
                      @ [Invoke (selected a ws)],
           outcome = fst (run_target L (caller M) (selected a ws)),
           controller_state = snd (run_target L (caller M) (selected a ws)),
           processes = map (\<lambda>i. run_target L (child M i) (selected a ws)) [0..<nat (workers a - 1)]\<rparr>"
    using cli_run [OF assms(3,4,5,1)] launch_returns [OF assms(6)] by simp
  have i: "invoked (effects (cli L M a)) = [selected a ws]"
    unfolding c by (simp add: invoked_launch)
  have o: "outcome (cli L M a) =
            run_worker L ws (case burst a of None \<Rightarrow> [] | Some b \<Rightarrow> [(''burst'', b)])"
    "controller_state (cli L M a) = None"
    unfolding c by (simp_all add: s run_target_plain)
  have w: "spawned (effects (cli L M a)) = [] \<and> processes (cli L M a) = []
            \<and> effects (cli L M a) = [SysPathAppend, DictConfig lc, Invoke (selected a ws)]"
    if "workers a = 1"
    unfolding c using that by simp
  show ?thesis using i o w s by auto
qed

theorem plain_run_burst_witness:
  "effects (cli demo_library demo_machine demo_args)
     = [SysPathAppend, DictConfig ''standard'', Invoke (RunWorker ''WorkerSettings'' [])]
   \<and> invoked (effects (cli demo_library demo_machine (demo_args\<lparr>burst := Some False\<rparr>)))
     = [RunWorker ''WorkerSettings'' [(''burst'', False)]]
   \<and> outcome (cli demo_library demo_machine demo_args) = Returned"
proof -
  have r: "\<not> check (demo_args\<lparr>burst := x\<rparr>)"
    "truthy (watch (demo_args\<lparr>burst := x\<rparr>)) = None"
    "import_string demo_library (worker_settings (demo_args\<lparr>burst := x\<rparr>)) = Some ''WorkerSettings''"
    "load_log_config demo_library (demo_args\<lparr>burst := x\<rparr>) = Inr ''standard''"
    "dict_config demo_library ''standard'' = None"
    "starts_return demo_library demo_machine (selected (demo_args\<lparr>burst := x\<rparr>) ''WorkerSettings'')
       (nat (workers (demo_args\<lparr>burst := x\<rparr>) - 1))" for x
    by (simp_all add: demo_library_def demo_args_def load_log_config_def truthy_def starts_return_def)
  have d: "demo_args\<lparr>burst := None\<rparr> = demo_args" "workers demo_args = 1" "burst demo_args = None"
    by (simp_all add: demo_args_def)
  show ?thesis
    using plain_run_burst [OF r, of None] plain_run_burst [OF r, of "Some False"]
    by (simp add: d) (simp add: demo_args_def demo_library_def selected_def truthy_def)
qed

text \<open>
  Claim C9. The coroutine \<^verbatim>\<open>watch_reload\<close> raises its import error, before anything else,
  exactly when \<^verbatim>\<open>watchfiles\<close> is missing; \<^verbatim>\<open>cli\<close> in watch mode, once the configuration
  resolves, logging is configured and every start returns, then ends with that error; and in
  health-check mode and in plain run mode the result of \<^verbatim>\<open>cli\<close> depends on no host, so
  not on whether \<^verbatim>\<open>watchfiles\<close> is installed.
\<close>

theorem watcher_needed_only_in_watch_mode:
  "(\<not> watchfiles_installed h \<longrightarrow>
      watch_reload h p (c :: 'c) =
        (Uncaught (ImportError ''watchfiles not installed, use `pip install watchfiles`''), initial))
   \<and> (watchfiles_installed h \<longrightarrow> (\<forall>m. fst (watch_reload h p c) \<noteq> Uncaught (ImportError m)))
   \<and> (\<not> watchfiles_installed (caller M) \<and> \<not> check a \<and> truthy (watch a) = Some p
        \<and> import_string L (worker_settings a) = Some (ws :: 'c) \<and> load_log_config L a = Inr lc
        \<and> dict_config L lc = None
        \<and> starts_return L M (AsyncioRun (WatchReload p ws)) (nat (workers a - 1)) \<longrightarrow>
      outcome (cli L M a) =
        Uncaught (ImportError ''watchfiles not installed, use `pip install watchfiles`''))
   \<and> (check a \<or> truthy (watch a) = None \<longrightarrow>
        cli L (M\<lparr>caller := h', child := k'\<rparr>) a = cli L M a)"
proof -
  have 1: "watch_reload h p c =
        (Uncaught (ImportError ''watchfiles not installed, use `pip install watchfiles`''), initial)"
    if "\<not> watchfiles_installed h" for c :: 'c and h
    using that by (simp add: watch_reload_def)
  have 2: "fst (watch_reload h p c) \<noteq> Uncaught (ImportError m)" if "watchfiles_installed h" for m
    using that watch_reload_ends [of h p c] by auto
  have 3: "outcome (cli L M a) =
        Uncaught (ImportError ''watchfiles not installed, use `pip install watchfiles`'')"
    if "\<not> watchfiles_installed (caller M)" "\<not> check a" "truthy (watch a) = Some p"
      "import_string L (worker_settings a) = Some ws" "load_log_config L a = Inr lc"
      "dict_config L lc = None"
      "starts_return L M (AsyncioRun (WatchReload p ws)) (nat (workers a - 1))"
  proof -
    have s: "selected a ws = AsyncioRun (WatchReload p ws)"
      using that(3) by (simp add: selected_def)
    show ?thesis
      using cli_run [OF that(4,5,6,2), of M] launch_returns [of L M "selected a ws" "workers a"] that(7)
      by (simp add: s run_target_watch 1 [OF that(1)])
  qed
  have 4: "cli L (M\<lparr>caller := h', child := k'\<rparr>) a = cli L M a" if "check a \<or> truthy (watch a) = None"
  proof (cases "check a")
    case True
    then show ?thesis by (simp add: cli_def Let_def split: option.splits sum.splits)
  next
    case False
    then have w: "truthy (watch a) = None" using that by simp
    have "launch L (M\<lparr>caller := h', child := k'\<rparr>) n prior (RunWorker x y)
        = launch L M n prior (RunWorker x y)" for n prior x y
    proof -
      have "start_loop L (M\<lparr>caller := h', child := k'\<rparr>) t i m = start_loop L M t i m" for t i m
        by (induction m arbitrary: i) (simp_all add: process_start_def)
      then show ?thesis
        by (simp add: launch_def start_processes_def run_target_plain split: prod.splits option.splits)
    qed
    then show ?thesis using w False
      by (simp add: cli_def Let_def split: option.splits sum.splits)
  qed
  show ?thesis using 1 2 3 4 by blast
qed

theorem watcher_needed_only_in_watch_mode_witness:
  "outcome (cli demo_library (demo_machine\<lparr>caller := demo_host\<lparr>watchfiles_installed := False\<rparr>\<rparr>)
              (demo_args\<lparr>watch := Some ''src''\<rparr>))
     = Uncaught (ImportError ''watchfiles not installed, use `pip install watchfiles`'')
   \<and> cli demo_library (demo_machine\<lparr>caller := demo_host\<lparr>watchfiles_installed := False\<rparr>, child := child demo_machine\<rparr>) demo_args
       = cli demo_library demo_machine demo_args
   \<and> outcome (cli demo_library demo_machine demo_args) = Returned"
proof -
  let ?M = "demo_machine\<lparr>caller := demo_host\<lparr>watchfiles_installed := False\<rparr>\<rparr>"
  let ?a = "demo_args\<lparr>watch := Some ''src''\<rparr>"
  have r: "\<not> watchfiles_installed (caller ?M)" "\<not> check ?a" "truthy (watch ?a) = Some ''src''"
    "import_string demo_library (worker_settings ?a) = Some ''WorkerSettings''"
    "load_log_config demo_library ?a = Inr ''standard''"
    "dict_config demo_library ''standard'' = None"
    "starts_return demo_library ?M (AsyncioRun (WatchReload ''src'' ''WorkerSettings'')) (nat (workers ?a - 1))"
    "truthy (watch demo_args) = None"
    by (simp_all add: demo_library_def demo_args_def load_log_config_def truthy_def starts_return_def
        demo_host_def)
  have e: "outcome (cli demo_library demo_machine demo_args) = Returned"
    by (simp add: cli_def launch_def start_processes_def run_target_def demo_library_def
        demo_args_def load_log_config_def truthy_def)
  show ?thesis
    using watcher_needed_only_in_watch_mode [where h = "caller ?M" and p = "''src''"
        and c = "''WorkerSettings''" and M = ?M and a = ?a and L = demo_library
        and ws = "''WorkerSettings''" and lc = "''standard''" and h' = "caller ?M"
        and k' = "child demo_machine"]
      watcher_needed_only_in_watch_mode [where h = "caller ?M" and p = "''src''"
        and c = "''WorkerSettings''" and M = demo_machine and a = demo_args and L = demo_library
        and ws = "''WorkerSettings''" and lc = "''standard''" and h' = "caller ?M"
        and k' = "child demo_machine"]
      r e
    by simp
qed


end
